theory Spec2Isabelle
  imports Main "HOL-Library.Multiset" "HOL-Library.Sublist" "HOL-Library.Word"
begin

text \<open>
  The core of a static content catalogue, embedded function by function: the search engine
  (\<open>js/searchEngine.js\<close>), the data loader with its cache and its retries
  (\<open>js/dataLoader.js\<close>), the path router (\<open>js/router.js\<close>) and \<open>parseQueryString\<close>
  (\<open>js/utils.js\<close>). State is passed explicitly: a method takes the object (\<open>this\<close>) and
  the part of the environment it touches and returns the new ones; a method that can raise
  returns a sum, \<open>Inl\<close> the error. The datasets are typed as the specification types them:
  items and recommendation entries are records, a priority and a TTL are integers. What
  the language's library supplies from tables of its own (the case mapping of
  \<open>toLowerCase\<close>, the compilation of a regular expression that is not one of the
  router's templates) is a parameter of the functions that use it.
\<close>

section \<open>Strings, values and errors\<close>

text \<open>
  Messages, URLs and paths are modelled as \<^typ>\<open>string\<close>, read as UTF-8 byte strings.
  The text the search engine works on (a keyword, a title, a description) is a list of
  UTF-16 code units, which is what \<open>trim\<close>, \<open>split\<close>, \<open>toLowerCase\<close> and \<open>includes\<close>
  of the language work on. \<open>s.includes(t)\<close> is \<^term>\<open>sublist t s\<close> (\<open>t\<close> occurs in \<open>s\<close>
  as a contiguous block). Numbers are integers.
\<close>

type_synonym code_unit = "16 word"

type_synonym js_string = "code_unit list"

text \<open>
  The code units \<open>trim\<close> strips and the class \<open>\s\<close> matches: the white space and the
  line terminators of the language.
\<close>

definition isWhiteSpace :: "code_unit \<Rightarrow> bool" where
  "isWhiteSpace c \<longleftrightarrow>
     (0x0009 \<le> c \<and> c \<le> 0x000D) \<or> c = 0x0020 \<or> c = 0x00A0 \<or> c = 0x1680 \<or>
     (0x2000 \<le> c \<and> c \<le> 0x200A) \<or> c = 0x2028 \<or> c = 0x2029 \<or> c = 0x202F \<or>
     c = 0x205F \<or> c = 0x3000 \<or> c = 0xFEFF"

definition trim :: "js_string \<Rightarrow> js_string" where
  "trim s = rev (dropWhile isWhiteSpace (rev (dropWhile isWhiteSpace s)))"

text \<open>
  \<open>s.split(/\s+/)\<close>: the pieces of \<open>s\<close> between maximal runs of white space, empty
  pieces at either end included. The first argument holds the current piece, reversed.
\<close>

function splitWhitespace :: "js_string \<Rightarrow> js_string \<Rightarrow> js_string list" where
  "splitWhitespace piece [] = [rev piece]"
| "splitWhitespace piece (c # cs) =
     (if isWhiteSpace c then rev piece # splitWhitespace [] (dropWhile isWhiteSpace cs)
      else splitWhitespace (c # piece) cs)"
  by pat_completeness auto
termination
  by (relation "measure (\<lambda>(piece, s). length s)")
     (auto simp: le_imp_less_Suc length_dropWhile_le)

text \<open>
  \<open>String.prototype.toLowerCase\<close> maps a string by the case tables of the Unicode version
  the engine was built with. The tables are not part of the program: the mapping is a
  parameter of the functions that call it, and what is proved holds for every mapping.
\<close>

type_synonym case_mapping = "js_string \<Rightarrow> js_string"

text \<open>
  The values a caller can pass where a string is expected. \<open>Other\<close> is a value of any
  other kind (an object, an array, a function, a symbol) that has no method \<open>trim\<close>.
\<close>

datatype js_value =
  Undefined | Null | Boolean bool | Number int | NaN | BigInt int | String js_string | Other

text \<open>\<open>!v\<close> is \<open>\<not> truthy v\<close>.\<close>

definition truthy :: "js_value \<Rightarrow> bool" where
  "truthy v =
     (case v of
        Undefined \<Rightarrow> False
      | Null \<Rightarrow> False
      | Boolean b \<Rightarrow> b
      | Number n \<Rightarrow> n \<noteq> 0
      | NaN \<Rightarrow> False
      | BigInt n \<Rightarrow> n \<noteq> 0
      | String s \<Rightarrow> s \<noteq> []
      | Other \<Rightarrow> True)"

text \<open>
  A thrown \<open>Error\<close> (a \<open>TypeError\<close> and a \<open>URIError\<close> among them); only its \<open>message\<close> is
  read by the program. Calling a property that is not a function raises a \<open>TypeError\<close>;
  its message is the engine's (V8's wording is taken).
\<close>

datatype js_error = Error (message: string)

definition not_a_function :: "string \<Rightarrow> js_error" where
  "not_a_function callee = Error (callee @ '' is not a function'')"

section \<open>Array.prototype.sort\<close>

text \<open>
  \<open>xs.sort(cmp)\<close> is stable, and for a consistent comparator it returns the elements in
  non-decreasing order of \<open>cmp\<close>; the two together fix the result. It is computed here by
  a stable insertion sort: an element goes in front of the first later element that does
  not precede it.
\<close>

fun insert_sorted :: "('a \<Rightarrow> 'a \<Rightarrow> int) \<Rightarrow> 'a \<Rightarrow> 'a list \<Rightarrow> 'a list" where
  "insert_sorted cmp x [] = [x]"
| "insert_sorted cmp x (y # ys) =
     (if cmp x y \<le> 0 then x # y # ys else y # insert_sorted cmp x ys)"

definition js_sort :: "('a \<Rightarrow> 'a \<Rightarrow> int) \<Rightarrow> 'a list \<Rightarrow> 'a list" where
  "js_sort cmp xs = foldr (insert_sorted cmp) xs []"

section \<open>SearchEngine\<close>

text \<open>
  A content item as the core reads it: \<open>id\<close>, \<open>type\<close>, \<open>title\<close> and \<open>description\<close>.
  \<open>None\<close> for a title or description stands for a missing (or \<open>null\<close>) field.
  The engine's state is its one field \<open>this.data\<close>, the list of items.
\<close>

record content_item =
  item_id :: string
  item_type :: string
  title :: "js_string option"
  description :: "js_string option"

record scored =
  item :: content_item
  score :: int


text \<open>\<open>keyword.toLowerCase().trim().split(/\s+/).filter(kw => kw !== '')\<close>\<close>

definition keywords_of :: "case_mapping \<Rightarrow> js_string \<Rightarrow> js_string list" where
  "keywords_of toLowerCase keyword =
     filter (\<lambda>kw. kw \<noteq> []) (splitWhitespace [] (trim (toLowerCase keyword)))"

text \<open>The body of \<open>keywords.forEach\<close>: the running score after one more keyword.\<close>

definition score_keyword :: "js_string \<Rightarrow> js_string \<Rightarrow> int \<Rightarrow> js_string \<Rightarrow> int" where
  "score_keyword ttl desc sc kw =
     (let sc1 = (if sublist kw ttl then sc + 2 else sc)
      in if sublist kw desc then sc1 + 1 else sc1)"

definition score_item :: "case_mapping \<Rightarrow> js_string list \<Rightarrow> content_item \<Rightarrow> int" where
  "score_item toLowerCase keywords it =
     (let ttl = toLowerCase (case title it of None \<Rightarrow> [] | Some t \<Rightarrow> t);
          desc = toLowerCase (case description it of None \<Rightarrow> [] | Some d \<Rightarrow> d)
      in foldl (score_keyword ttl desc) 0 keywords)"

text \<open>The body of \<open>this.data.forEach\<close>: an item with a positive score is pushed onto \<open>results\<close>.\<close>

definition push_scored ::
  "case_mapping \<Rightarrow> js_string list \<Rightarrow> scored list \<Rightarrow> content_item \<Rightarrow> scored list" where
  "push_scored toLowerCase keywords results it =
     (let sc = score_item toLowerCase keywords it
      in if sc > 0 then results @ [\<lparr>item = it, score = sc\<rparr>] else results)"

text \<open>\<open>results\<close> after \<open>results.sort((a, b) => b.score - a.score)\<close>.\<close>

definition scored_results :: "case_mapping \<Rightarrow> content_item list \<Rightarrow> js_string list \<Rightarrow> scored list" where
  "scored_results toLowerCase this_data keywords =
     js_sort (\<lambda>a b. score b - score a) (foldl (push_scored toLowerCase keywords) [] this_data)"

text \<open>
  \<open>search(keyword)\<close>. A keyword that is not truthy gives \<open>[]\<close> at once. On any other
  keyword \<open>keyword.trim()\<close> is called: a string has the method, a truthy value of another
  kind has not, and the call raises.
\<close>

definition search ::
  "case_mapping \<Rightarrow> content_item list \<Rightarrow> js_value \<Rightarrow> js_error + content_item list" where
  "search toLowerCase this_data keyword =
     (if \<not> truthy keyword then Inr []
      else
        case keyword of
          String k \<Rightarrow>
            if trim k = [] then Inr []
            else let keywords = keywords_of toLowerCase k in
              if length keywords = 0 then Inr []
              else Inr (map item (scored_results toLowerCase this_data keywords))
        | _ \<Rightarrow> Inl (not_a_function ''keyword.trim''))"

section \<open>DataLoader\<close>

subsection \<open>Errors and messages\<close>

text \<open>The decimal numeral of a number, as a template literal prints it.\<close>

function decimal :: "nat \<Rightarrow> string" where
  "decimal n = (if n < 10 then [char_of (48 + n)] else decimal (n div 10) @ [char_of (48 + n mod 10)])"
  by pat_completeness auto
termination
  by (relation "measure id") auto

definition number_string :: "int \<Rightarrow> string" where
  "number_string i = (if i < 0 then CHR ''-'' # decimal (nat (- i)) else decimal (nat i))"

definition http_error :: "int \<Rightarrow> js_error" where
  "http_error st = Error (''HTTP error! status: '' @ number_string st)"

text \<open>
  Reading a property of \<open>null\<close> raises a \<open>TypeError\<close>; its message is the engine's (V8's
  wording is taken).
\<close>

definition type_error_null :: "string \<Rightarrow> js_error" where
  "type_error_null property =
     Error (''Cannot read properties of null (reading '' @ [CHR 0x27] @ property @ [CHR 0x27] @ '')'')"

text \<open>
  The message literals of the source are Chinese text; they are given by their UTF-8 bytes.
  The three \<open>invalid_\<close> messages are the validation errors, the three \<open>cannot_load_\<close>
  strings (each ending in a colon and a blank) are the prefixes of the errors the loads raise.
\<close>

definition invalid_content :: string where
  "invalid_content =
     [CHR 0xE5, CHR 0x86, CHR 0x85, CHR 0xE5, CHR 0xAE, CHR 0xB9, CHR 0xE6, CHR 0x95, CHR 0xB0,
      CHR 0xE6, CHR 0x8D, CHR 0xAE, CHR 0xE6, CHR 0xA0, CHR 0xBC, CHR 0xE5, CHR 0xBC, CHR 0x8F,
      CHR 0xE6, CHR 0x97, CHR 0xA0, CHR 0xE6, CHR 0x95, CHR 0x88]"

definition invalid_recommendations :: string where
  "invalid_recommendations =
     [CHR 0xE6, CHR 0x8E, CHR 0xA8, CHR 0xE8, CHR 0x8D, CHR 0x90, CHR 0xE6, CHR 0x95, CHR 0xB0,
      CHR 0xE6, CHR 0x8D, CHR 0xAE, CHR 0xE6, CHR 0xA0, CHR 0xBC, CHR 0xE5, CHR 0xBC, CHR 0x8F,
      CHR 0xE6, CHR 0x97, CHR 0xA0, CHR 0xE6, CHR 0x95, CHR 0x88]"

definition invalid_config :: string where
  "invalid_config =
     [CHR 0xE9, CHR 0x85, CHR 0x8D, CHR 0xE7, CHR 0xBD, CHR 0xAE, CHR 0xE6, CHR 0x95, CHR 0xB0,
      CHR 0xE6, CHR 0x8D, CHR 0xAE, CHR 0xE6, CHR 0xA0, CHR 0xBC, CHR 0xE5, CHR 0xBC, CHR 0x8F,
      CHR 0xE6, CHR 0x97, CHR 0xA0, CHR 0xE6, CHR 0x95, CHR 0x88]"

definition cannot_load_content :: string where
  "cannot_load_content =
     [CHR 0xE6, CHR 0x97, CHR 0xA0, CHR 0xE6, CHR 0xB3, CHR 0x95, CHR 0xE5, CHR 0x8A, CHR 0xA0,
      CHR 0xE8, CHR 0xBD, CHR 0xBD, CHR 0xE5, CHR 0x86, CHR 0x85, CHR 0xE5, CHR 0xAE, CHR 0xB9,
      CHR 0xE6, CHR 0x95, CHR 0xB0, CHR 0xE6, CHR 0x8D, CHR 0xAE, CHR 0x3A, CHR 0x20]"

definition cannot_load_recommendations :: string where
  "cannot_load_recommendations =
     [CHR 0xE6, CHR 0x97, CHR 0xA0, CHR 0xE6, CHR 0xB3, CHR 0x95, CHR 0xE5, CHR 0x8A, CHR 0xA0,
      CHR 0xE8, CHR 0xBD, CHR 0xBD, CHR 0xE6, CHR 0x8E, CHR 0xA8, CHR 0xE8, CHR 0x8D, CHR 0x90,
      CHR 0xE6, CHR 0x95, CHR 0xB0, CHR 0xE6, CHR 0x8D, CHR 0xAE, CHR 0x3A, CHR 0x20]"

definition cannot_load_config :: string where
  "cannot_load_config =
     [CHR 0xE6, CHR 0x97, CHR 0xA0, CHR 0xE6, CHR 0xB3, CHR 0x95, CHR 0xE5, CHR 0x8A, CHR 0xA0,
      CHR 0xE8, CHR 0xBD, CHR 0xBD, CHR 0xE9, CHR 0x85, CHR 0x8D, CHR 0xE7, CHR 0xBD, CHR 0xAE,
      CHR 0xE6, CHR 0x95, CHR 0xB0, CHR 0xE6, CHR 0x8D, CHR 0xAE, CHR 0x3A, CHR 0x20]"

subsection \<open>The datasets\<close>

record recommendation =
  contentId :: string
  reason :: "string option"
  priority :: int

text \<open>
  What a parsed response body shows to the loads. A field the loads test with
  \<open>Array.isArray\<close> is \<open>Falsy\<close> (missing, \<open>null\<close>, \<open>0\<close>, \<open>''\<close>, \<open>false\<close>), some other
  value that is not an array, or an array. A field they test for truth only is \<open>None\<close>
  when missing or falsy and carries its JSON text otherwise. \<open>performance.cacheDuration\<close>
  is a number or missing. A body that is a number, a string, a boolean or an array has
  none of the fields; the body \<open>null\<close> is \<open>JNull\<close>.
\<close>

datatype 'a jsfield = Falsy | NotArray | Array "'a list"

datatype performance = Performance "int option"

record json_doc =
  json_content :: "content_item jsfield"
  json_recommendations :: "recommendation jsfield"
  json_site :: "string option"
  json_contentTypes :: "string option"
  json_ageRatings :: "string option"
  json_performance :: "performance option"

datatype json_value = JNull | JDoc json_doc

subsection \<open>The transport and the environment\<close>

text \<open>
  A response has its \<open>ok\<close> flag, its \<open>status\<close> and the outcome of \<open>response.json()\<close>
  (the parsed body, or the error of a body that does not parse). \<open>fetch\<close> resolves with a
  response or rejects with an error. The network answers the \<open>n\<close>-th request of a run
  (counted from 0 over all requests) for a URL, after \<open>latency\<close> milliseconds.
\<close>

record response =
  ok :: bool
  status :: int
  json :: "js_error + json_value"

datatype reply = Rejected js_error | Resolved response

record network =
  respond :: "string \<Rightarrow> nat \<Rightarrow> reply"
  latency :: "string \<Rightarrow> nat \<Rightarrow> int"

text \<open>
  The world a load runs in: the clock \<open>Date.now()\<close> reads, and the trace of what the
  load did to its environment, oldest first (requests, timer waits, console output).
\<close>

datatype event = Fetch string | SetTimeout int | ConsoleWarn | ConsoleError

record world =
  now :: int
  trace :: "event list"

fun is_fetch :: "event \<Rightarrow> bool" where
  "is_fetch (Fetch url) = True"
| "is_fetch e = False"

definition fetches :: "world \<Rightarrow> nat" where
  "fetches w = length (filter is_fetch (trace w))"

definition fetch :: "network \<Rightarrow> string \<Rightarrow> world \<Rightarrow> reply \<times> world" where
  "fetch net url w =
     (let n = fetches w
      in (respond net url n, w\<lparr>now := now w + latency net url n, trace := trace w @ [Fetch url]\<rparr>))"

definition console_warn :: "world \<Rightarrow> world" where
  "console_warn w = w\<lparr>trace := trace w @ [ConsoleWarn]\<rparr>"

definition console_error :: "world \<Rightarrow> world" where
  "console_error w = w\<lparr>trace := trace w @ [ConsoleError]\<rparr>"

text \<open>\<open>await new Promise(resolve => setTimeout(resolve, delay))\<close>\<close>

definition setTimeout :: "int \<Rightarrow> world \<Rightarrow> world" where
  "setTimeout delay w = w\<lparr>now := now w + max 0 delay, trace := trace w @ [SetTimeout delay]\<rparr>"

subsection \<open>The loader and its cache\<close>

record 'a slot =
  data :: "'a option"
  timestamp :: "int option"

record cache_slots =
  content :: "content_item list slot"
  config :: "json_doc slot"
  recommendations :: "recommendation list slot"

record loader =
  cache :: cache_slots
  cacheDuration :: int
  maxRetries :: int
  retryDelay :: int

datatype cache_key = Content | Config | Recommendations

definition empty_slot :: "'a slot" where
  "empty_slot = \<lparr>data = None, timestamp = None\<rparr>"

definition new_DataLoader :: loader where
  "new_DataLoader =
     \<lparr>cache = \<lparr>content = empty_slot, config = empty_slot, recommendations = empty_slot\<rparr>,
      cacheDuration = 3600000, maxRetries = 3, retryDelay = 1000\<rparr>"

text \<open>
  The body of \<open>isCacheValid\<close> on the slot \<open>this.cache[key]\<close>. Cached data is an array or an
  object, so \<open>!cached.data\<close> holds for \<open>null\<close> only; \<open>!cached.timestamp\<close> holds for \<open>null\<close>
  and for the number 0.
\<close>

definition slot_valid :: "'a slot \<Rightarrow> int \<Rightarrow> int \<Rightarrow> bool" where
  "slot_valid cached duration now_ms =
     (case timestamp cached of
        None \<Rightarrow> False
      | Some ts \<Rightarrow> if data cached = None \<or> ts = 0 then False else now_ms - ts < duration)"

definition isCacheValid :: "loader \<Rightarrow> cache_key \<Rightarrow> world \<Rightarrow> bool" where
  "isCacheValid this key w =
     (case key of
        Content \<Rightarrow> slot_valid (content (cache this)) (cacheDuration this) (now w)
      | Config \<Rightarrow> slot_valid (config (cache this)) (cacheDuration this) (now w)
      | Recommendations \<Rightarrow> slot_valid (recommendations (cache this)) (cacheDuration this) (now w))"

text \<open>The entry \<open>setCache\<close> stores under a key, and what \<open>getCache\<close> reads from a slot.\<close>

definition setCache :: "'a \<Rightarrow> world \<Rightarrow> 'a slot" where
  "setCache d w = \<lparr>data = Some d, timestamp = Some (now w)\<rparr>"

definition getCache :: "'a slot \<Rightarrow> 'a option" where
  "getCache cached = data cached"

subsection \<open>fetchWithRetry\<close>

text \<open>The \<open>try\<close> block: one request; a response that is not \<open>ok\<close> is thrown as an error.\<close>

definition attempt :: "network \<Rightarrow> string \<Rightarrow> world \<Rightarrow> (js_error + response) \<times> world" where
  "attempt net url w =
     (case fetch net url w of
        (Rejected e, w1) \<Rightarrow> (Inl e, w1)
      | (Resolved response, w1) \<Rightarrow>
          if \<not> ok response then (Inl (http_error (status response)), w1) else (Inr response, w1))"

function fetchWithRetry ::
  "network \<Rightarrow> loader \<Rightarrow> string \<Rightarrow> int \<Rightarrow> world \<Rightarrow> (js_error + response) \<times> world" where
  "fetchWithRetry net this url retries w =
     (case attempt net url w of
        (Inr response, w1) \<Rightarrow> (Inr response, w1)
      | (Inl error, w1) \<Rightarrow>
          if retries > 0
          then fetchWithRetry net this url (retries - 1) (setTimeout (retryDelay this) (console_warn w1))
          else (Inl error, w1))"
  by pat_completeness auto
termination
  by (relation "measure (\<lambda>(net, this, url, retries, w). nat retries)") auto

subsection \<open>The three loads\<close>

definition content_url :: string where "content_url = ''./data/content.json''"
definition config_url :: string where "config_url = ''./data/config.json''"
definition recommendations_url :: string where "recommendations_url = ''./data/recommendations.json''"

text \<open>
  Parsing and validating the body (the rest of each \<open>try\<close> block): \<open>response.json()\<close>
  may reject, \<open>data.content\<close> on \<open>null\<close> raises, and a body of the wrong shape is thrown
  as a validation error.
\<close>

definition parse_content :: "response \<Rightarrow> js_error + content_item list" where
  "parse_content response =
     (case json response of
        Inl e \<Rightarrow> Inl e
      | Inr JNull \<Rightarrow> Inl (type_error_null ''content'')
      | Inr (JDoc d) \<Rightarrow>
          (case json_content d of
             Falsy \<Rightarrow> Inl (Error invalid_content)
           | NotArray \<Rightarrow> Inl (Error invalid_content)
           | Array xs \<Rightarrow> Inr xs))"

definition parse_recommendations :: "response \<Rightarrow> js_error + recommendation list" where
  "parse_recommendations response =
     (case json response of
        Inl e \<Rightarrow> Inl e
      | Inr JNull \<Rightarrow> Inl (type_error_null ''recommendations'')
      | Inr (JDoc d) \<Rightarrow>
          (case json_recommendations d of
             Falsy \<Rightarrow> Inl (Error invalid_recommendations)
           | NotArray \<Rightarrow> Inl (Error invalid_recommendations)
           | Array xs \<Rightarrow> Inr xs))"

definition parse_config :: "response \<Rightarrow> js_error + json_doc" where
  "parse_config response =
     (case json response of
        Inl e \<Rightarrow> Inl e
      | Inr JNull \<Rightarrow> Inl (type_error_null ''site'')
      | Inr (JDoc d) \<Rightarrow>
          if json_site d = None \<or> json_contentTypes d = None \<or> json_ageRatings d = None
          then Inl (Error invalid_config) else Inr d)"

text \<open>
  \<open>if (data.performance && data.performance.cacheDuration) this.cacheDuration = ...\<close>:
  a number is truthy unless it is 0.
\<close>

definition apply_cacheDuration :: "json_doc \<Rightarrow> loader \<Rightarrow> loader" where
  "apply_cacheDuration d this =
     (case json_performance d of
        None \<Rightarrow> this
      | Some (Performance None) \<Rightarrow> this
      | Some (Performance (Some duration)) \<Rightarrow>
          if duration \<noteq> 0 then this\<lparr>cacheDuration := duration\<rparr> else this)"

text \<open>
  Each load returns what it returns or raises, the loader and the world after it. The
  value returned is the cached or fetched data; \<open>None\<close> is \<open>null\<close>, which \<open>getCache\<close>
  would return from an empty slot.
\<close>

definition loadContent ::
  "network \<Rightarrow> loader \<Rightarrow> world \<Rightarrow> (js_error + content_item list option) \<times> loader \<times> world" where
  "loadContent net this w =
     (if isCacheValid this Content w then (Inr (getCache (content (cache this))), this, w)
      else
        case fetchWithRetry net this content_url (maxRetries this) w of (fetched, w1) \<Rightarrow>
          (case (case fetched of Inl e \<Rightarrow> Inl e | Inr response \<Rightarrow> parse_content response) of
             Inr xs \<Rightarrow>
               (Inr (Some xs), this\<lparr>cache := (cache this)\<lparr>content := setCache xs w1\<rparr>\<rparr>, w1)
           | Inl error \<Rightarrow>
               (case data (content (cache this)) of
                  Some stale \<Rightarrow> (Inr (Some stale), this, console_warn (console_error w1))
                | None \<Rightarrow>
                    (Inl (Error (cannot_load_content @ message error)), this, console_error w1))))"

definition loadRecommendations ::
  "network \<Rightarrow> loader \<Rightarrow> world \<Rightarrow> (js_error + recommendation list option) \<times> loader \<times> world" where
  "loadRecommendations net this w =
     (if isCacheValid this Recommendations w
      then (Inr (getCache (recommendations (cache this))), this, w)
      else
        case fetchWithRetry net this recommendations_url (maxRetries this) w of (fetched, w1) \<Rightarrow>
          (case (case fetched of Inl e \<Rightarrow> Inl e | Inr response \<Rightarrow> parse_recommendations response) of
             Inr xs \<Rightarrow>
               (Inr (Some xs), this\<lparr>cache := (cache this)\<lparr>recommendations := setCache xs w1\<rparr>\<rparr>, w1)
           | Inl error \<Rightarrow>
               (case data (recommendations (cache this)) of
                  Some stale \<Rightarrow> (Inr (Some stale), this, console_warn (console_error w1))
                | None \<Rightarrow>
                    (Inl (Error (cannot_load_recommendations @ message error)), this,
                     console_error w1))))"

definition loadConfig ::
  "network \<Rightarrow> loader \<Rightarrow> world \<Rightarrow> (js_error + json_doc option) \<times> loader \<times> world" where
  "loadConfig net this w =
     (if isCacheValid this Config w then (Inr (getCache (config (cache this))), this, w)
      else
        case fetchWithRetry net this config_url (maxRetries this) w of (fetched, w1) \<Rightarrow>
          (case (case fetched of Inl e \<Rightarrow> Inl e | Inr response \<Rightarrow> parse_config response) of
             Inr d \<Rightarrow>
               (let this1 = apply_cacheDuration d this
                in (Inr (Some d), this1\<lparr>cache := (cache this1)\<lparr>config := setCache d w1\<rparr>\<rparr>, w1))
           | Inl error \<Rightarrow>
               (case data (config (cache this)) of
                  Some stale \<Rightarrow> (Inr (Some stale), this, console_warn (console_error w1))
                | None \<Rightarrow>
                    (Inl (Error (cannot_load_config @ message error)), this, console_error w1))))"

subsection \<open>getRecommendedContent\<close>

text \<open>
  A content item spread into a new object with the entry's \<open>reason\<close> and \<open>priority\<close> added
  as \<open>recommendationReason\<close> and \<open>recommendationPriority\<close>.
\<close>

record recommended =
  rec_item :: content_item
  recommendationReason :: "string option"
  recommendationPriority :: int

text \<open>The callback of \<open>recommendations.map\<close>; \<open>None\<close> is the \<open>null\<close> it returns.\<close>

definition annotate :: "content_item list \<Rightarrow> recommendation \<Rightarrow> recommended option" where
  "annotate cont entry =
     (case find (\<lambda>c. item_id c = contentId entry) cont of
        Some it \<Rightarrow>
          Some \<lparr>rec_item = it, recommendationReason = reason entry,
                recommendationPriority = priority entry\<rparr>
      | None \<Rightarrow> None)"

text \<open>\<open>.filter(item => item !== null)\<close>\<close>

fun not_null :: "'a option list \<Rightarrow> 'a list" where
  "not_null [] = []"
| "not_null (None # xs) = not_null xs"
| "not_null (Some x # xs) = x # not_null xs"

definition recommendedContent :: "recommendation list \<Rightarrow> content_item list \<Rightarrow> recommended list" where
  "recommendedContent recs cont =
     js_sort (\<lambda>a b. recommendationPriority a - recommendationPriority b)
       (not_null (map (annotate cont) recs))"

text \<open>
  The method: both loads in turn, then the join. An error of either load is logged and
  raised again. A load that returned \<open>null\<close> makes \<open>.map\<close> (or \<open>.find\<close>, once the first
  entry is looked up) raise a \<open>TypeError\<close>, which is logged and raised as well.
\<close>

definition getRecommendedContent ::
  "network \<Rightarrow> loader \<Rightarrow> world \<Rightarrow> (js_error + recommended list) \<times> loader \<times> world" where
  "getRecommendedContent net this w =
     (case loadRecommendations net this w of
        (Inl error, this1, w1) \<Rightarrow> (Inl error, this1, console_error w1)
      | (Inr recs, this1, w1) \<Rightarrow>
          (case loadContent net this1 w1 of
             (Inl error, this2, w2) \<Rightarrow> (Inl error, this2, console_error w2)
           | (Inr cont, this2, w2) \<Rightarrow>
               (case recs of
                  None \<Rightarrow> (Inl (type_error_null ''map''), this2, console_error w2)
                | Some rs \<Rightarrow>
                    (case cont of
                       Some cs \<Rightarrow> (Inr (recommendedContent rs cs), this2, w2)
                     | None \<Rightarrow>
                         if rs = [] then (Inr [], this2, w2)
                         else (Inl (type_error_null ''find''), this2, console_error w2)))))"

section \<open>decodeURIComponent and parseQueryString\<close>

text \<open>
  \<open>decodeURIComponent\<close> replaces every escape \<open>%XX\<close> by its octet. Octets from 0x80 on
  must form well-formed UTF-8 sequences in which every octet is escaped; anything else
  raises a \<open>URIError\<close>. First the escapes are read (\<open>Inr\<close> an escaped octet, \<open>Inl\<close> a
  character standing for itself), then the octet sequences are checked. As strings are
  UTF-8 here, the decoded text of a sequence is the sequence of its octets.
\<close>

definition uri_error :: js_error where
  "uri_error = Error ''URI malformed''"

definition hex_digit :: "char \<Rightarrow> nat option" where
  "hex_digit c =
     (let n = (of_char c :: nat)
      in if 48 \<le> n \<and> n \<le> 57 then Some (n - 48)
         else if 65 \<le> n \<and> n \<le> 70 then Some (n - 55)
         else if 97 \<le> n \<and> n \<le> 102 then Some (n - 87)
         else None)"

fun read_escapes :: "string \<Rightarrow> (char + nat) list option" where
  "read_escapes [] = Some []"
| "read_escapes (c # cs) =
     (if c = CHR ''%'' then
        (case cs of
           h # l # rest \<Rightarrow>
             (case (hex_digit h, hex_digit l) of
                (Some a, Some b) \<Rightarrow> map_option (Cons (Inr (16 * a + b))) (read_escapes rest)
              | _ \<Rightarrow> None)
         | _ \<Rightarrow> None)
      else map_option (Cons (Inl c)) (read_escapes cs))"

text \<open>
  The code point a sequence of octets encodes, when it is the shortest encoding of a
  code point that is not a surrogate and not above 0x10FFFF.
\<close>

fun utf8_valid :: "nat list \<Rightarrow> bool" where
  "utf8_valid [b0, b1] = (128 \<le> (b0 - 192) * 64 + (b1 - 128))"
| "utf8_valid [b0, b1, b2] =
     (let cp = (b0 - 224) * 4096 + (b1 - 128) * 64 + (b2 - 128)
      in 2048 \<le> cp \<and> \<not> (55296 \<le> cp \<and> cp \<le> 57343))"
| "utf8_valid [b0, b1, b2, b3] =
     (let cp = (b0 - 240) * 262144 + (b1 - 128) * 4096 + (b2 - 128) * 64 + (b3 - 128)
      in 65536 \<le> cp \<and> cp \<le> 1114111)"
| "utf8_valid bs = False"

text \<open>
  \<open>decode_octets need seq ts\<close>: \<open>need\<close> continuation octets are still due for the
  sequence \<open>seq\<close> that has been started.
\<close>

fun decode_octets :: "nat \<Rightarrow> nat list \<Rightarrow> (char + nat) list \<Rightarrow> string option" where
  "decode_octets need seq [] = (if need = 0 then Some [] else None)"
| "decode_octets need seq (Inl c # ts) =
     (if need = 0 then map_option (Cons c) (decode_octets 0 [] ts) else None)"
| "decode_octets need seq (Inr b # ts) =
     (if need = 0 then
        (if b < 128 then map_option (Cons (char_of b)) (decode_octets 0 [] ts)
         else if 192 \<le> b \<and> b < 224 then decode_octets 1 [b] ts
         else if 224 \<le> b \<and> b < 240 then decode_octets 2 [b] ts
         else if 240 \<le> b \<and> b < 248 then decode_octets 3 [b] ts
         else None)
      else if 128 \<le> b \<and> b < 192 then
        (if need = 1 then
           (if utf8_valid (seq @ [b])
            then map_option (\<lambda>r. map char_of (seq @ [b]) @ r) (decode_octets 0 [] ts)
            else None)
         else decode_octets (need - 1) (seq @ [b]) ts)
      else None)"

definition decodeURIComponent :: "string \<Rightarrow> js_error + string" where
  "decodeURIComponent s =
     (case read_escapes s of
        None \<Rightarrow> Inl uri_error
      | Some ts \<Rightarrow> (case decode_octets 0 [] ts of None \<Rightarrow> Inl uri_error | Some r \<Rightarrow> Inr r))"

text \<open>\<open>s.split(sep)\<close> for a separator of one character.\<close>

fun split_on :: "char \<Rightarrow> string \<Rightarrow> string \<Rightarrow> string list" where
  "split_on sep piece [] = [rev piece]"
| "split_on sep piece (c # cs) =
     (if c = sep then rev piece # split_on sep [] cs else split_on sep (c # piece) cs)"

text \<open>
  The browser as the router sees it: \<open>window.location\<close>, the console, and the
  \<open>innerHTML\<close> of the \<open>main\<close> element and of \<open>document.body\<close> (\<open>None\<close> when there is no
  such element). \<open>NotFoundNotice\<close> stands for the markup \<open>handle404\<close> writes.
\<close>

datatype html = Markup string | NotFoundNotice

datatype console_entry = Warned string | Logged js_error

record browser =
  pathname :: string
  href :: string
  console :: "console_entry list"
  main_html :: "html option"
  body_html :: "html option"

type_synonym params = "string \<rightharpoonup> string"

text \<open>The body of \<open>cleanQueryString.split('&').forEach\<close>.\<close>

definition add_param :: "params \<Rightarrow> string \<Rightarrow> params" where
  "add_param ps param =
     (case split_on (CHR ''='') [] param of
        [] \<Rightarrow> ps
      | k # rest \<Rightarrow>
          let v = (case rest of [] \<Rightarrow> [] | x # others \<Rightarrow> x)
          in if k = [] then ps
             else (case (decodeURIComponent k, decodeURIComponent v) of
                     (Inr dk, Inr dv) \<Rightarrow> ps(dk \<mapsto> dv)
                   | _ \<Rightarrow> ps(k \<mapsto> v)))"

text \<open>\<open>parseQueryString(url)\<close>; \<open>None\<close> is a call without argument.\<close>

definition parseQueryString :: "browser \<Rightarrow> string option \<Rightarrow> params" where
  "parseQueryString b url =
     (let u = (case url of None \<Rightarrow> href b | Some s \<Rightarrow> if s = [] then href b else s);
          queryString =
            (if CHR ''?'' \<in> set u
             then (case split_on (CHR ''?'') [] u of x # q # others \<Rightarrow> q | _ \<Rightarrow> [])
             else u);
          cleanQueryString = (case split_on (CHR ''#'') [] queryString of [] \<Rightarrow> [] | x # others \<Rightarrow> x)
      in if cleanQueryString = [] then Map.empty
         else foldl add_param Map.empty (split_on (CHR ''&'') [] cleanQueryString))"

section \<open>Router\<close>

text \<open>
  \<open>register\<close> turns a pattern into the source of a regular expression and has the engine
  compile it. For a pattern whose characters, apart from \<open>/\<close> and the \<open>:name\<close>
  placeholders, stand for themselves in a regular expression, the compiled expression is
  modelled: a list of literal characters and capture groups \<open>([^\/]+)\<close>, anchored at both
  ends (a \<open>Template\<close>). A pattern that carries regular-expression syntax of its own is
  compiled as the expression it spells; what the engine makes of such a source (an error,
  or an expression that answers a path with \<open>null\<close> or with the captures
  \<open>match[1]\<close>, \<open>match[2]\<close>, ..., each a string or \<open>undefined\<close>) is a parameter,
  and the expression is \<open>Native\<close>. Paths are ASCII: the browser keeps
  \<open>location.pathname\<close> percent-encoded.
\<close>

datatype token = Lit char | Group

type_synonym captures = "string option list"

datatype regexp = Template "token list" | Native "string \<Rightarrow> captures option"


text \<open>
  A handler is called with the extracted parameters. It runs on the router's current
  parameters and the browser, both of which it may read and change (a handler that
  navigates changes both), and it returns normally or raises an error. Handlers that
  register or clear routes are not modelled.
\<close>

type_synonym route_handler =
  "params \<Rightarrow> params \<times> browser \<Rightarrow> js_error option \<times> params \<times> browser"

record route =
  pattern :: string
  regex :: regexp
  paramNames :: "string list"
  handler :: route_handler

record router =
  routes :: "route list"
  currentParams :: params











text \<open>
  The match of a template against the whole path: the captured groups, or \<open>None\<close>. A
  group is greedy: it takes the longest run of characters other than \<open>/\<close> with which the
  rest still matches, and at least one character.
\<close>

fun first_success :: "'a option list \<Rightarrow> 'a option" where
  "first_success [] = None"
| "first_success (None # xs) = first_success xs"
| "first_success (Some x # xs) = Some x"

fun match_tokens :: "token list \<Rightarrow> string \<Rightarrow> string list option" where
  "match_tokens [] s = (if s = [] then Some [] else None)"
| "match_tokens (Lit c # ts) s =
     (case s of [] \<Rightarrow> None | d # rest \<Rightarrow> if d = c then match_tokens ts rest else None)"
| "match_tokens (Group # ts) s =
     first_success
       (map (\<lambda>n. map_option (Cons (take n s)) (match_tokens ts (drop n s)))
          (rev [1 ..< Suc (length (takeWhile (\<lambda>c. c \<noteq> CHR ''/'') s))]))"

text \<open>\<open>path.match(regex)\<close>: \<open>None\<close> is \<open>null\<close>, else the captures.\<close>

definition path_match :: "string \<Rightarrow> regexp \<Rightarrow> captures option" where
  "path_match path re =
     (case re of
        Template ts \<Rightarrow> map_option (map Some) (match_tokens ts path)
      | Native f \<Rightarrow> f path)"

text \<open>
  \<open>decodeURIComponent(match[index + 1])\<close> for each name in turn; a group that does not
  exist or took no part in the match reads as \<open>undefined\<close>, which \<open>decodeURIComponent\<close>
  turns into a string.
\<close>

definition capture :: "captures \<Rightarrow> nat \<Rightarrow> string" where
  "capture m i =
     (if i < length m then (case m ! i of Some s \<Rightarrow> s | None \<Rightarrow> ''undefined'') else ''undefined'')"

fun bind_params :: "string list \<Rightarrow> nat \<Rightarrow> captures \<Rightarrow> params \<Rightarrow> js_error + params" where
  "bind_params [] i m ps = Inr ps"
| "bind_params (name # names) i m ps =
     (case decodeURIComponent (capture m i) of
        Inl e \<Rightarrow> Inl e
      | Inr v \<Rightarrow> bind_params names (Suc i) m (ps(name \<mapsto> v)))"

definition handle404 :: "browser \<Rightarrow> browser" where
  "handle404 b =
     (case main_html b of
        Some m \<Rightarrow> b\<lparr>main_html := Some NotFoundNotice\<rparr>
      | None \<Rightarrow>
          (case body_html b of
             Some m \<Rightarrow> b\<lparr>body_html := Some NotFoundNotice\<rparr>
           | None \<Rightarrow> b))"

text \<open>
  The loop of \<open>handleRoute\<close> over the routes still to be tried. An error of
  \<open>decodeURIComponent\<close> leaves the method. \<open>this.currentParams = params\<close> comes before the
  call of the handler, so the handler runs on current parameters that are \<open>params\<close>
  already; an error of the handler is caught and logged.
\<close>

fun dispatch :: "route list \<Rightarrow> router \<Rightarrow> browser \<Rightarrow> js_error + router \<times> browser" where
  "dispatch [] this b =
     Inr (this, handle404 (b\<lparr>console := console b @ [Warned (pathname b)]\<rparr>))"
| "dispatch (rt # rest) this b =
     (case path_match (pathname b) (regex rt) of
        None \<Rightarrow> dispatch rest this b
      | Some m \<Rightarrow>
          (case bind_params (paramNames rt) 0 m Map.empty of
             Inl e \<Rightarrow> Inl e
           | Inr ps \<Rightarrow>
               (case handler rt ps (ps, b) of
                  (None, current, b1) \<Rightarrow> Inr (this\<lparr>currentParams := current\<rparr>, b1)
                | (Some error, current, b1) \<Rightarrow>
                    Inr (this\<lparr>currentParams := current\<rparr>,
                         b1\<lparr>console := console b1 @ [Logged error]\<rparr>))))"

definition handleRoute :: "router \<Rightarrow> browser \<Rightarrow> js_error + router \<times> browser" where
  "handleRoute this b = dispatch (routes this) this b"

definition getParams :: "router \<Rightarrow> browser \<Rightarrow> params" where
  "getParams this b = parseQueryString b (Some (href b))"

definition getPathParams :: "router \<Rightarrow> params" where
  "getPathParams this = currentParams this"

text \<open>\<open>{ ...this.currentParams, ...this.getParams() }\<close>: the later spread overwrites.\<close>

definition getAllParams :: "router \<Rightarrow> browser \<Rightarrow> params" where
  "getAllParams this b = currentParams this ++ getParams this b"

section \<open>Notions used to state the properties\<close>

subsection \<open>Search\<close>

text \<open>
  The relevance of an item as the specification words it: every term of the query adds
  2 when it occurs in the lower-cased title and 1 when it occurs in the lower-cased
  description.
\<close>

definition term_points :: "case_mapping \<Rightarrow> content_item \<Rightarrow> js_string \<Rightarrow> int" where
  "term_points lower it kw =
     (if sublist kw (lower (case title it of None \<Rightarrow> [] | Some t \<Rightarrow> t)) then 2 else 0) +
     (if sublist kw (lower (case description it of None \<Rightarrow> [] | Some d \<Rightarrow> d)) then 1 else 0)"

definition relevance :: "case_mapping \<Rightarrow> js_string \<Rightarrow> content_item \<Rightarrow> int" where
  "relevance lower keyword it = sum_list (map (term_points lower it) (keywords_of lower keyword))"


text \<open>
  The terms of a query as the specification words them: the maximal runs of characters
  other than white space, in order, repetitions kept.
\<close>

function words_of :: "js_string \<Rightarrow> js_string list" where
  "words_of s =
     (case dropWhile isWhiteSpace s of
        [] \<Rightarrow> []
      | c # cs \<Rightarrow>
          (c # takeWhile (\<lambda>x. \<not> isWhiteSpace x) cs) #
          words_of (dropWhile (\<lambda>x. \<not> isWhiteSpace x) cs))"
  by pat_completeness auto
termination
proof (relation "measure length", goal_cases)
  case 1
  then show ?case by simp
next
  case (2 s c cs)
  have "length (dropWhile (\<lambda>x. \<not> isWhiteSpace x) cs) \<le> length cs"
    by (rule length_dropWhile_le)
  moreover have "length (c # cs) \<le> length s"
    using 2 length_dropWhile_le [of isWhiteSpace s] by simp
  ultimately show ?case by simp
qed

declare words_of.simps [simp del]

subsection \<open>Loads\<close>

declare fetchWithRetry.simps [simp del]

text \<open>
  A reply is a failure when \<open>fetch\<close> rejects or the response is not \<open>ok\<close>; \<open>thrown\<close> is
  the error the \<open>try\<close> block of \<open>fetchWithRetry\<close> raises for it.
\<close>

definition failure :: "reply \<Rightarrow> bool" where
  "failure r = (case r of Rejected e \<Rightarrow> True | Resolved response \<Rightarrow> \<not> ok response)"

definition thrown :: "reply \<Rightarrow> js_error" where
  "thrown r = (case r of Rejected e \<Rightarrow> e | Resolved response \<Rightarrow> http_error (status response))"

text \<open>
  What \<open>fetchWithRetry\<close> adds to the trace when every attempt fails: \<open>n\<close> rounds of a
  request, a warning and a wait of the retry delay, and one last request.
\<close>

primrec retry_trace :: "string \<Rightarrow> int \<Rightarrow> nat \<Rightarrow> event list" where
  "retry_trace url delay 0 = [Fetch url]"
| "retry_trace url delay (Suc n) = [Fetch url, ConsoleWarn, SetTimeout delay] @ retry_trace url delay n"

text \<open>
  What a load whose fetch failed gives: the slot's data when it holds any, else the error
  whose message is the load's prefix followed by the message of the cause.
\<close>

definition stale_or_failure :: "'a option \<Rightarrow> string \<Rightarrow> js_error \<Rightarrow> js_error + 'a option" where
  "stale_or_failure cached pre cause =
     (case cached of Some stale \<Rightarrow> Inr (Some stale) | None \<Rightarrow> Inl (Error (pre @ message cause)))"

text \<open>
  The outcome of a load against a transport that fails on every attempt: the trace grows by
  the retry rounds above and the load's own console output (an error, and a warning when
  stale data is served), so that exactly \<open>maxRetries + 1\<close> requests are made; and with an
  empty slot the load raises the wrapped error of the last attempt.
\<close>

definition exhausted_retries ::
  "network \<Rightarrow> loader \<Rightarrow> world \<Rightarrow> string \<Rightarrow> string \<Rightarrow> 'a option \<Rightarrow>
   (js_error + 'a option) \<times> loader \<times> world \<Rightarrow> bool" where
  "exhausted_retries net this w url pre cached outcome \<longleftrightarrow>
     trace (snd (snd outcome)) =
       trace w @ retry_trace url (retryDelay this) (nat (maxRetries this)) @
       (if cached = None then [ConsoleError] else [ConsoleError, ConsoleWarn]) \<and>
     fetches (snd (snd outcome)) = fetches w + (nat (maxRetries this) + 1) \<and>
     (cached = None \<longrightarrow>
        fst outcome =
          Inl (Error (pre @ message (thrown (respond net url (fetches w + nat (maxRetries this)))))))"

text \<open>
  The annotated items in the order of the recommendation list, as the specification words
  the join: an entry contributes the first item whose \<open>id\<close> is its \<open>contentId\<close>, with the
  entry's reason and priority, and nothing when there is no such item.
\<close>

definition annotated_matches :: "recommendation list \<Rightarrow> content_item list \<Rightarrow> recommended list" where
  "annotated_matches recs cont =
     concat (map (\<lambda>entry.
        case find (\<lambda>c. item_id c = contentId entry) cont of
          None \<Rightarrow> []
        | Some it \<Rightarrow> [\<lparr>rec_item = it, recommendationReason = reason entry,
                       recommendationPriority = priority entry\<rparr>]) recs)"

subsection \<open>Routes\<close>






text \<open>
  The first route, in registration order, whose expression matches the path, with the
  captures; the number of groups of a template and the text it matches for given
  captures.
\<close>

fun first_match :: "route list \<Rightarrow> string \<Rightarrow> (route \<times> captures) option" where
  "first_match [] path = None"
| "first_match (rt # rest) path =
     (case path_match path (regex rt) of None \<Rightarrow> first_match rest path | Some m \<Rightarrow> Some (rt, m))"




text \<open>
  The parameters of a match, as the specification words them: the captures are decoded
  and bound to the parameter names by position, the \<open>i\<close>-th name to the \<open>i\<close>-th capture,
  a later name overwriting an equal earlier one; there are none when some capture does not
  decode.
\<close>

definition decoded :: "string \<Rightarrow> string option" where
  "decoded s = (case decodeURIComponent s of Inl e \<Rightarrow> None | Inr v \<Rightarrow> Some v)"

definition bound_params :: "string list \<Rightarrow> captures \<Rightarrow> params option" where
  "bound_params names m =
     map_option (\<lambda>vs. Map.empty(names [\<mapsto>] vs))
       (those (map (\<lambda>i. decoded (capture m i)) [0 ..< length names]))"

text \<open>
  The router and the browser after a handler ran (its error, if any, logged), and the
  browser after the not-found fallback.
\<close>

definition after_handler :: "router \<Rightarrow> js_error option \<times> params \<times> browser \<Rightarrow> router \<times> browser" where
  "after_handler this outcome =
     (case outcome of
        (None, current, b1) \<Rightarrow> (this\<lparr>currentParams := current\<rparr>, b1)
      | (Some error, current, b1) \<Rightarrow>
          (this\<lparr>currentParams := current\<rparr>, b1\<lparr>console := console b1 @ [Logged error]\<rparr>))"

definition not_found :: "browser \<Rightarrow> browser" where
  "not_found b = handle404 (b\<lparr>console := console b @ [Warned (pathname b)]\<rparr>)"

subsection \<open>Concrete states\<close>

text \<open>
  Networks that reject every request, answer every request with status 503, or serve a
  given document; worlds at a usual time and at the epoch; loaders with cached content.
\<close>

text \<open>
  Text given by its ASCII characters, and a case mapping for the examples: it lowers the
  capital letters of Basic Latin and of Latin-1 Supplement and leaves every other code
  unit as it is, as the Unicode tables do with the code units the examples use. The item
  \<open>xiao_wangzi\<close> is the sample item of the README, its title and description given by
  their code units.
\<close>

definition ascii :: "string \<Rightarrow> js_string" where
  "ascii s = map (\<lambda>c. of_nat (of_char c)) s"

definition lower_latin :: case_mapping where
  "lower_latin s =
     map (\<lambda>c. if (0x41 \<le> c \<and> c \<le> 0x5A) \<or> (0xC0 \<le> c \<and> c \<le> 0xDE \<and> c \<noteq> 0xD7) then c + 0x20 else c) s"

definition xiao_wangzi :: content_item where
  "xiao_wangzi =
     \<lparr>item_id = ''unique-id-001'', item_type = ''book'',
      title = Some [0x300A, 0x5C0F, 0x738B, 0x5B50, 0x300B],
      description = Some [0x4E00, 0x4E2A, 0x5173, 0x4E8E, 0x7231, 0x4E0E, 0x8D23, 0x4EFB, 0x7684,
                          0x7AE5, 0x8BDD, 0x6545, 0x4E8B]\<rparr>"

definition ecole :: content_item where
  "ecole =
     \<lparr>item_id = ''e1'', item_type = ''documentary'', title = Some (0xC9 # ascii ''cole des Princes''),
      description = None\<rparr>"

definition little_prince :: content_item where
  "little_prince =
     \<lparr>item_id = ''p1'', item_type = ''book'', title = Some (ascii ''Little Prince''),
      description = Some (ascii ''a story about a prince'')\<rparr>"

definition dragon_tales :: content_item where
  "dragon_tales =
     \<lparr>item_id = ''d1'', item_type = ''movie'', title = Some (ascii ''Dragon Tales''),
      description = Some (ascii ''the prince of dragons'')\<rparr>"

definition offline :: network where
  "offline = \<lparr>respond = (\<lambda>url n. Rejected (Error ''Failed to fetch'')), latency = (\<lambda>url n. 20)\<rparr>"

definition unavailable :: network where
  "unavailable =
     \<lparr>respond = (\<lambda>url n. Resolved \<lparr>ok = False, status = 503, json = Inl (Error ''Unexpected end of JSON input'')\<rparr>),
      latency = (\<lambda>url n. 20)\<rparr>"

definition serving :: "json_doc \<Rightarrow> network" where
  "serving d =
     \<lparr>respond = (\<lambda>url n. Resolved \<lparr>ok = True, status = 200, json = Inr (JDoc d)\<rparr>),
      latency = (\<lambda>url n. 0)\<rparr>"

definition world0 :: world where
  "world0 = \<lparr>now = 1700000000000, trace = []\<rparr>"

definition epoch :: world where
  "epoch = \<lparr>now = 0, trace = []\<rparr>"

definition stale_loader :: loader where
  "stale_loader =
     new_DataLoader\<lparr>cache := (cache new_DataLoader)
       \<lparr>content := \<lparr>data = Some [little_prince], timestamp = Some 1600000000000\<rparr>\<rparr>\<rparr>"

definition fresh_loader :: loader where
  "fresh_loader =
     new_DataLoader\<lparr>cache := (cache new_DataLoader)
       \<lparr>content := \<lparr>data = Some [little_prince], timestamp = Some 1699999900000\<rparr>\<rparr>\<rparr>"

definition stamped_loader :: loader where
  "stamped_loader =
     new_DataLoader\<lparr>cache := (cache new_DataLoader)
       \<lparr>content := \<lparr>data = Some [little_prince], timestamp = Some 1699999900000\<rparr>,
        recommendations := \<lparr>data = Some [], timestamp = Some 1699999990000\<rparr>\<rparr>\<rparr>"

definition site_config :: "int option \<Rightarrow> json_doc" where
  "site_config ttl =
     \<lparr>json_content = Array [little_prince], json_recommendations = Falsy,
      json_site = Some ''{}'', json_contentTypes = Some ''{}'', json_ageRatings = Some ''{}'',
      json_performance = Some (Performance ttl)\<rparr>"

definition item_a :: content_item where
  "item_a = \<lparr>item_id = ''a'', item_type = ''book'', title = Some (ascii ''A''), description = None\<rparr>"

definition item_b :: content_item where
  "item_b = \<lparr>item_id = ''b'', item_type = ''movie'', title = Some (ascii ''B''), description = None\<rparr>"

definition item_c :: content_item where
  "item_c = \<lparr>item_id = ''c'', item_type = ''kids'', title = Some (ascii ''C''), description = None\<rparr>"

definition picks :: "recommendation list" where
  "picks =
     [\<lparr>contentId = ''a'', reason = Some ''classic'', priority = 2\<rparr>,
      \<lparr>contentId = ''missing'', reason = None, priority = 1\<rparr>,
      \<lparr>contentId = ''b'', reason = None, priority = 0\<rparr>,
      \<lparr>contentId = ''c'', reason = Some ''new'', priority = 2\<rparr>]"

definition catalogue :: json_doc where
  "catalogue =
     \<lparr>json_content = Array [item_a, item_b, item_c], json_recommendations = Array picks,
      json_site = None, json_contentTypes = None, json_ageRatings = None,
      json_performance = None\<rparr>"

text \<open>
  The router after \<open>register('/category/:type', h)\<close>, handlers and pages. The engine
  \<open>one_alternation\<close> compiles the one source \<open>^\/a|\/b$\<close>, which matches a path that
  begins with \<open>/a\<close> or ends with \<open>/b\<close> and has no groups.
\<close>

definition category_route :: "route_handler \<Rightarrow> route" where
  "category_route h =
     \<lparr>pattern = ''/category/:type'',
      regex = Template (map Lit ''/category/'' @ [Group]),
      paramNames = [''type''], handler = h\<rparr>"

definition category_router :: "route_handler \<Rightarrow> router" where
  "category_router h = \<lparr>routes = [category_route h], currentParams = Map.empty\<rparr>"


fun show_type :: route_handler where
  "show_type ps (current, b) =
     (None, current, b\<lparr>main_html := Some (Markup (case ps ''type'' of None \<Rightarrow> [] | Some t \<Rightarrow> t))\<rparr>)"



fun broken_view :: route_handler where
  "broken_view ps (current, b) = (Some (Error ''render failed''), current, b\<lparr>main_html := None\<rparr>)"






definition page :: "string \<Rightarrow> string \<Rightarrow> browser" where
  "page path url =
     \<lparr>pathname = path, href = url, console = [], main_html = Some (Markup []),
      body_html = Some (Markup [])\<rparr>"

definition books_page :: browser where
  "books_page = page ''/category/books'' ''https://example.com/category/books?type=movies&page=2''"



section \<open>Properties of the sort\<close>

lemma set_insert_sorted: "set (insert_sorted cmp x ys) = insert x (set ys)"
  by (induction ys) auto

lemma mset_insert_sorted: "mset (insert_sorted cmp x ys) = add_mset x (mset ys)"
  by (induction ys) auto

lemma mset_js_sort: "mset (js_sort cmp xs) = mset xs"
  by (induction xs) (simp_all add: js_sort_def mset_insert_sorted)

lemma sorted_insert_sorted:
  assumes total: "\<And>a b. 0 < cmp a b \<Longrightarrow> cmp b a \<le> 0"
    and trans: "\<And>a b c. cmp a b \<le> 0 \<Longrightarrow> cmp b c \<le> 0 \<Longrightarrow> cmp a c \<le> 0"
    and "sorted_wrt (\<lambda>a b. cmp a b \<le> 0) ys"
  shows "sorted_wrt (\<lambda>a b. cmp a b \<le> 0) (insert_sorted cmp x ys)"
  using assms(3)
proof (induction ys)
  case Nil
  then show ?case by simp
next
  case (Cons y ys)
  show ?case
  proof (cases "cmp x y \<le> 0")
    case True
    with Cons.prems show ?thesis by (auto intro: trans)
  next
    case False
    then have "cmp y x \<le> 0" using total [of x y] by simp
    with False Cons show ?thesis by (auto simp: set_insert_sorted)
  qed
qed

lemma sorted_js_sort:
  assumes total: "\<And>a b. 0 < cmp a b \<Longrightarrow> cmp b a \<le> 0"
    and trans: "\<And>a b c. cmp a b \<le> 0 \<Longrightarrow> cmp b c \<le> 0 \<Longrightarrow> cmp a c \<le> 0"
  shows "sorted_wrt (\<lambda>a b. cmp a b \<le> 0) (js_sort cmp xs)"
proof (induction xs)
  case Nil
  then show ?case by (simp add: js_sort_def)
next
  case (Cons x xs)
  have "js_sort cmp (x # xs) = insert_sorted cmp x (js_sort cmp xs)"
    by (simp add: js_sort_def)
  with Cons show ?case
    using sorted_insert_sorted [of cmp "js_sort cmp xs" x, OF total trans] by simp
qed

text \<open>Stability: elements that compare equal to a given key keep their original order.\<close>

lemma filter_insert_sorted:
  assumes "\<And>y. y \<in> set ys \<Longrightarrow> P y \<Longrightarrow> P x \<Longrightarrow> cmp x y \<le> 0"
  shows "filter P (insert_sorted cmp x ys) = filter P (x # ys)"
  using assms by (induction ys) auto

section \<open>Properties of the search\<close>

lemma foldl_score_keyword:
  "foldl (score_keyword ttl desc) acc kws =
     acc + sum_list (map (\<lambda>kw. (if sublist kw ttl then 2 else 0) + (if sublist kw desc then 1 else 0)) kws)"
  by (induction kws arbitrary: acc) (auto simp: score_keyword_def)

lemma score_item_relevance: "score_item lc (keywords_of lc keyword) it = relevance lc keyword it"
  by (simp add: score_item_def relevance_def foldl_score_keyword term_points_def [abs_def])

lemma foldl_push_scored:
  "foldl (push_scored lc kws) acc xs =
     acc @ map (\<lambda>it. \<lparr>item = it, score = score_item lc kws it\<rparr>)
             (filter (\<lambda>it. 0 < score_item lc kws it) xs)"
  by (induction xs arbitrary: acc) (auto simp: push_scored_def Let_def)

lemma scored_results_empty_keywords: "scored_results lc this_data [] = []"
proof -
  have "foldl (push_scored lc []) [] this_data = []"
    by (simp add: foldl_push_scored score_item_def)
  then show ?thesis by (simp add: scored_results_def js_sort_def)
qed

lemma trim_Nil: "trim [] = []"
  by (simp add: trim_def)

lemma search_scored_results:
  "trim keyword \<noteq> [] \<Longrightarrow>
     search lc this_data (String keyword) =
       Inr (map item (scored_results lc this_data (keywords_of lc keyword)))"
  by (auto simp: search_def truthy_def Let_def scored_results_empty_keywords trim_Nil)

lemma set_scored_results:
  "set (scored_results lc this_data kws) =
     (\<lambda>it. \<lparr>item = it, score = score_item lc kws it\<rparr>) ` {it \<in> set this_data. 0 < score_item lc kws it}"
proof -
  have "set (scored_results lc this_data kws) = set_mset (mset (scored_results lc this_data kws))"
    by simp
  also have "\<dots> = set (foldl (push_scored lc kws) [] this_data)"
    by (simp add: scored_results_def mset_js_sort)
  finally show ?thesis by (simp add: foldl_push_scored)
qed

lemma mset_map_item_scored_results:
  "mset (map item (scored_results lc this_data kws)) =
     mset (filter (\<lambda>it. 0 < score_item lc kws it) this_data)"
proof -
  have "mset (map item (scored_results lc this_data kws)) =
          image_mset item (mset (scored_results lc this_data kws))"
    by simp
  also have "\<dots> = image_mset item (mset (foldl (push_scored lc kws) [] this_data))"
    by (simp add: scored_results_def mset_js_sort)
  also have "\<dots> = mset (filter (\<lambda>it. 0 < score_item lc kws it) this_data)"
    by (simp add: foldl_push_scored image_mset.compositionality comp_def)
  finally show ?thesis .
qed

lemma sorted_scored_results:
  "sorted_wrt (\<lambda>a b. score b \<le> score a) (scored_results lc this_data kws)"
proof -
  have "sorted_wrt (\<lambda>a b. score b - score a \<le> 0) (scored_results lc this_data kws)"
    unfolding scored_results_def
    by (rule sorted_js_sort) simp_all
  then show ?thesis by simp
qed




subsection \<open>The terms of a query\<close>

lemma words_of_Nil: "words_of [] = []"
  by (simp add: words_of.simps)

lemma words_of_space: "isWhiteSpace c \<Longrightarrow> words_of (c # cs) = words_of cs"
  by (simp add: words_of.simps [of "c # cs"] words_of.simps [of cs])

lemma words_of_letter:
  "\<not> isWhiteSpace c \<Longrightarrow>
     words_of (c # cs) =
       (c # takeWhile (\<lambda>x. \<not> isWhiteSpace x) cs) # words_of (dropWhile (\<lambda>x. \<not> isWhiteSpace x) cs)"
  by (simp add: words_of.simps [of "c # cs"])

lemma words_of_dropWhile: "words_of (dropWhile isWhiteSpace s) = words_of s"
  by (induction s) (simp_all add: words_of_space)

lemma words_of_run:
  "words_of s =
     (if takeWhile (\<lambda>x. \<not> isWhiteSpace x) s = [] then []
      else [takeWhile (\<lambda>x. \<not> isWhiteSpace x) s]) @
     words_of (dropWhile (\<lambda>x. \<not> isWhiteSpace x) s)"
  by (cases s) (auto simp: words_of_letter)

lemma filter_splitWhitespace:
  "filter (\<lambda>kw. kw \<noteq> []) (splitWhitespace piece s) =
     (if rev piece @ takeWhile (\<lambda>x. \<not> isWhiteSpace x) s = [] then []
      else [rev piece @ takeWhile (\<lambda>x. \<not> isWhiteSpace x) s]) @
     words_of (dropWhile (\<lambda>x. \<not> isWhiteSpace x) s)"
proof (induction piece s rule: splitWhitespace.induct)
  case (1 piece)
  then show ?case by (simp add: words_of_Nil)
next
  case (2 piece c cs)
  show ?case
  proof (cases "isWhiteSpace c")
    case True
    have "words_of (c # cs) = words_of (dropWhile isWhiteSpace cs)"
      using True by (simp add: words_of_space words_of_dropWhile)
    also have "\<dots> = filter (\<lambda>kw. kw \<noteq> []) (splitWhitespace [] (dropWhile isWhiteSpace cs))"
      using "2.IH"(1) [OF True] words_of_run [of "dropWhile isWhiteSpace cs"] by simp
    finally show ?thesis using True by simp
  next
    case False
    with "2.IH"(2) show ?thesis by simp
  qed
qed

lemma words_of_split: "filter (\<lambda>kw. kw \<noteq> []) (splitWhitespace [] s) = words_of s"
  using filter_splitWhitespace [of "[]" s] words_of_run [of s] by simp

lemma takeWhile_spaces:
  "\<forall>x \<in> set u. isWhiteSpace x \<Longrightarrow> takeWhile (\<lambda>x. \<not> isWhiteSpace x) u = []"
  by (cases u) simp_all

lemma dropWhile_spaces:
  "\<forall>x \<in> set u. isWhiteSpace x \<Longrightarrow> dropWhile (\<lambda>x. \<not> isWhiteSpace x) u = u"
  by (cases u) simp_all

lemma takeWhile_append_spaces:
  "\<forall>x \<in> set u. isWhiteSpace x \<Longrightarrow>
     takeWhile (\<lambda>x. \<not> isWhiteSpace x) (cs @ u) = takeWhile (\<lambda>x. \<not> isWhiteSpace x) cs"
  by (induction cs) (simp_all add: takeWhile_spaces)

lemma dropWhile_append_spaces:
  "\<forall>x \<in> set u. isWhiteSpace x \<Longrightarrow>
     dropWhile (\<lambda>x. \<not> isWhiteSpace x) (cs @ u) = dropWhile (\<lambda>x. \<not> isWhiteSpace x) cs @ u"
  by (induction cs) (simp_all add: dropWhile_spaces)

lemma words_of_append_spaces:
  "\<forall>x \<in> set u. isWhiteSpace x \<Longrightarrow> words_of (s @ u) = words_of s"
proof (induction s rule: words_of.induct)
  case (1 s)
  show ?case
  proof (cases "dropWhile isWhiteSpace s")
    case Nil
    then have "\<forall>x \<in> set s. isWhiteSpace x" by (simp add: dropWhile_eq_Nil_conv)
    with "1.prems" have "dropWhile isWhiteSpace (s @ u) = []" by (auto simp: dropWhile_eq_Nil_conv)
    then have "words_of (s @ u) = []" by (subst words_of.simps) (simp only: list.case)
    moreover from Nil have "words_of s = []" by (subst words_of.simps) (simp only: list.case)
    ultimately show ?thesis by simp
  next
    case (Cons c cs)
    then have c: "\<not> isWhiteSpace c" by (metis hd_dropWhile list.distinct(1) list.sel(1))
    have d: "dropWhile isWhiteSpace (s @ u) = c # cs @ u"
      using Cons by (metis append_Cons dropWhile_append1 dropWhile_eq_Nil_conv list.distinct(1)
          dropWhile_append takeWhile_dropWhile_id append_Nil2 set_dropWhileD)
    have t: "takeWhile (\<lambda>x. \<not> isWhiteSpace x) (cs @ u) = takeWhile (\<lambda>x. \<not> isWhiteSpace x) cs"
      using "1.prems" by (rule takeWhile_append_spaces)
    have r: "dropWhile (\<lambda>x. \<not> isWhiteSpace x) (cs @ u) = dropWhile (\<lambda>x. \<not> isWhiteSpace x) cs @ u"
      using "1.prems" by (rule dropWhile_append_spaces)
    have "words_of (s @ u) =
        (c # takeWhile (\<lambda>x. \<not> isWhiteSpace x) (cs @ u)) #
        words_of (dropWhile (\<lambda>x. \<not> isWhiteSpace x) (cs @ u))"
      by (subst words_of.simps) (simp only: d list.case)
    then have "words_of (s @ u) =
        (c # takeWhile (\<lambda>x. \<not> isWhiteSpace x) cs) #
        words_of (dropWhile (\<lambda>x. \<not> isWhiteSpace x) cs @ u)"
      by (simp only: t r)
    also have "words_of (dropWhile (\<lambda>x. \<not> isWhiteSpace x) cs @ u) =
        words_of (dropWhile (\<lambda>x. \<not> isWhiteSpace x) cs)"
      using "1.IH" [OF Cons] "1.prems" by simp
    finally have "words_of (s @ u) =
        (c # takeWhile (\<lambda>x. \<not> isWhiteSpace x) cs) #
        words_of (dropWhile (\<lambda>x. \<not> isWhiteSpace x) cs)" .
    moreover from Cons have "words_of s =
        (c # takeWhile (\<lambda>x. \<not> isWhiteSpace x) cs) #
        words_of (dropWhile (\<lambda>x. \<not> isWhiteSpace x) cs)"
      by (subst words_of.simps) (simp only: list.case)
    ultimately show ?thesis by simp
  qed
qed

lemma words_of_trim: "words_of (trim s) = words_of s"
proof -
  let ?t = "dropWhile isWhiteSpace s"
  have "?t = rev (dropWhile isWhiteSpace (rev ?t)) @ rev (takeWhile isWhiteSpace (rev ?t))"
    by (metis rev_append rev_rev_ident takeWhile_dropWhile_id)
  moreover have "\<forall>x \<in> set (rev (takeWhile isWhiteSpace (rev ?t))). isWhiteSpace x"
    by (auto dest: set_takeWhileD)
  ultimately have "words_of ?t = words_of (rev (dropWhile isWhiteSpace (rev ?t)))"
    using words_of_append_spaces by metis
  then show ?thesis by (simp add: trim_def words_of_dropWhile)
qed

lemma keywords_of_words: "keywords_of lc keyword = words_of (lc keyword)"
  by (simp add: keywords_of_def words_of_split words_of_trim)

section \<open>Claims about the search engine\<close>

text \<open>
  C3. For a keyword that is a string, neither empty nor all white space, the terms of the
  query are the maximal runs of code units other than white space of the lower-cased
  keyword, in order and with repetitions. \<open>search\<close> returns the items of its sorted
  \<open>results\<close>; every entry of \<open>results\<close> is an item of the snapshot and carries as its
  score the sum, over the terms, of 2 for a term that occurs in the lower-cased title plus
  1 for a term that occurs in the lower-cased description (3 for a term in both), and that
  score is positive; the items returned are exactly the items of the snapshot whose score
  is positive, each as often as it occurs there; and they are returned in descending order
  of score. This holds whatever the case mapping of the engine is.
\<close>

theorem search_scores_and_ranks:
  assumes "keyword \<noteq> []" and "trim keyword \<noteq> []"
  shows "keywords_of lc keyword = words_of (lc keyword) \<and>
         relevance lc keyword it =
           sum_list (map (\<lambda>kw.
             (if sublist kw (lc (case title it of None \<Rightarrow> [] | Some t \<Rightarrow> t)) then 2 else 0) +
             (if sublist kw (lc (case description it of None \<Rightarrow> [] | Some d \<Rightarrow> d)) then 1 else 0))
             (words_of (lc keyword))) \<and>
         search lc this_data (String keyword) =
           Inr (map item (scored_results lc this_data (keywords_of lc keyword))) \<and>
         (\<forall>r \<in> set (scored_results lc this_data (keywords_of lc keyword)).
            item r \<in> set this_data \<and> score r = relevance lc keyword (item r) \<and> 0 < score r) \<and>
         (\<exists>result. search lc this_data (String keyword) = Inr result \<and>
            mset result = mset (filter (\<lambda>it. 0 < relevance lc keyword it) this_data) \<and>
            sorted_wrt (\<lambda>a b. relevance lc keyword b \<le> relevance lc keyword a) result)"
proof -
  let ?kws = "keywords_of lc keyword"
  let ?rs = "scored_results lc this_data ?kws"
  have eq: "search lc this_data (String keyword) = Inr (map item ?rs)"
    using assms(2) by (rule search_scored_results)
  have scores: "\<forall>r \<in> set ?rs. item r \<in> set this_data \<and> score r = relevance lc keyword (item r) \<and> 0 < score r"
    by (auto simp: set_scored_results score_item_relevance)
  have members: "mset (map item ?rs) = mset (filter (\<lambda>it. 0 < relevance lc keyword it) this_data)"
    using mset_map_item_scored_results [of lc this_data ?kws] by (simp add: score_item_relevance)
  have "sorted_wrt (\<lambda>a b. score b \<le> score a) ?rs"
    by (rule sorted_scored_results)
  then have "sorted_wrt (\<lambda>a b. relevance lc keyword (item b) \<le> relevance lc keyword (item a)) ?rs"
    by (rule sorted_wrt_mono_rel [rotated]) (use scores in auto)
  then have order: "sorted_wrt (\<lambda>a b. relevance lc keyword b \<le> relevance lc keyword a) (map item ?rs)"
    by (simp add: sorted_wrt_map)
  from eq members order
  have result: "\<exists>result. search lc this_data (String keyword) = Inr result \<and>
            mset result = mset (filter (\<lambda>it. 0 < relevance lc keyword it) this_data) \<and>
            sorted_wrt (\<lambda>a b. relevance lc keyword b \<le> relevance lc keyword a) result"
    by blast
  have rel: "relevance lc keyword it =
           sum_list (map (\<lambda>kw.
             (if sublist kw (lc (case title it of None \<Rightarrow> [] | Some t \<Rightarrow> t)) then 2 else 0) +
             (if sublist kw (lc (case description it of None \<Rightarrow> [] | Some d \<Rightarrow> d)) then 1 else 0))
             (words_of (lc keyword)))"
    by (simp add: relevance_def term_points_def [abs_def] keywords_of_words)
  from keywords_of_words [of lc keyword] rel eq scores result show ?thesis by blast
qed

theorem search_scores_and_ranks_witness:
  "[0x5C0F, 0x738B, 0x5B50, 0x3000, 0x7AE5, 0x8BDD] \<noteq> ([] :: js_string) \<and>
   trim [0x5C0F, 0x738B, 0x5B50, 0x3000, 0x7AE5, 0x8BDD] \<noteq> [] \<and>
   keywords_of lower_latin [0x5C0F, 0x738B, 0x5B50, 0x3000, 0x7AE5, 0x8BDD] =
     [[0x5C0F, 0x738B, 0x5B50], [0x7AE5, 0x8BDD]] \<and>
   keywords_of lower_latin (ascii ''  Prince'' @ [0xA0] @ ascii ''STORY prince '') =
     [ascii ''prince'', ascii ''story'', ascii ''prince''] \<and>
   relevance lower_latin [0x5C0F, 0x738B, 0x5B50, 0x3000, 0x7AE5, 0x8BDD] xiao_wangzi = 3 \<and>
   relevance lower_latin (ascii ''  Prince'' @ [0xA0] @ ascii ''STORY prince '') little_prince = 7 \<and>
   search lower_latin [dragon_tales, xiao_wangzi, ecole, little_prince]
       (String [0x5C0F, 0x738B, 0x5B50, 0x3000, 0x7AE5, 0x8BDD]) = Inr [xiao_wangzi] \<and>
   search lower_latin [dragon_tales, xiao_wangzi, ecole, little_prince] (String (ascii ''prince'')) =
     Inr [little_prince, ecole, dragon_tales] \<and>
   search lower_latin [dragon_tales, xiao_wangzi, ecole, little_prince] (String (0xC9 # ascii ''COLE'')) =
     Inr [ecole] \<and>
   (\<exists>result.
      search lower_latin [dragon_tales, xiao_wangzi, ecole, little_prince]
        (String [0x5C0F, 0x738B, 0x5B50, 0x3000, 0x7AE5, 0x8BDD]) = Inr result \<and>
      mset result =
        mset (filter (\<lambda>it. 0 < relevance lower_latin [0x5C0F, 0x738B, 0x5B50, 0x3000, 0x7AE5, 0x8BDD] it)
                [dragon_tales, xiao_wangzi, ecole, little_prince]))"
proof -
  let ?k = "[0x5C0F, 0x738B, 0x5B50, 0x3000, 0x7AE5, 0x8BDD] :: js_string"
  let ?d = "[dragon_tales, xiao_wangzi, ecole, little_prince]"
  have h1: "?k \<noteq> []" by simp
  have h2: "trim ?k \<noteq> []" by code_simp
  have k1: "keywords_of lower_latin ?k = [[0x5C0F, 0x738B, 0x5B50], [0x7AE5, 0x8BDD]]" by code_simp
  have k2: "keywords_of lower_latin (ascii ''  Prince'' @ [0xA0] @ ascii ''STORY prince '') =
     [ascii ''prince'', ascii ''story'', ascii ''prince'']" by code_simp
  have r1: "relevance lower_latin ?k xiao_wangzi = 3" by code_simp
  have r2: "relevance lower_latin (ascii ''  Prince'' @ [0xA0] @ ascii ''STORY prince '') little_prince = 7"
    by code_simp
  have s1: "search lower_latin ?d (String ?k) = Inr [xiao_wangzi]" by code_simp
  have s2: "search lower_latin ?d (String (ascii ''prince'')) = Inr [little_prince, ecole, dragon_tales]"
    by code_simp
  have s3: "search lower_latin ?d (String (0xC9 # ascii ''COLE'')) = Inr [ecole]" by code_simp
  from search_scores_and_ranks [OF h1 h2, of lower_latin xiao_wangzi ?d]
  have e: "\<exists>result. search lower_latin ?d (String ?k) = Inr result \<and>
      mset result = mset (filter (\<lambda>it. 0 < relevance lower_latin ?k it) ?d)"
    by blast
  show ?thesis
    apply (intro conjI)
    apply (rule h1)
    apply (rule h2)
    apply (rule k1)
    apply (rule k2)
    apply (rule r1)
    apply (rule r2)
    apply (rule s1)
    apply (rule s2)
    apply (rule s3)
    apply (rule e)
    done
qed




section \<open>Properties of fetchWithRetry and of the loads\<close>

lemma attempt_failure:
  "failure (respond net url (fetches w)) \<Longrightarrow>
     attempt net url w =
       (Inl (thrown (respond net url (fetches w))),
        w\<lparr>now := now w + latency net url (fetches w), trace := trace w @ [Fetch url]\<rparr>)"
  by (cases "respond net url (fetches w)")
     (auto simp: attempt_def fetch_def Let_def failure_def thrown_def)

lemma attempt_success:
  "respond net url (fetches w) = Resolved response \<Longrightarrow> ok response \<Longrightarrow>
     attempt net url w =
       (Inr response,
        w\<lparr>now := now w + latency net url (fetches w), trace := trace w @ [Fetch url]\<rparr>)"
  by (simp add: attempt_def fetch_def Let_def)

lemma fetches_after_attempt_wait:
  "fetches (setTimeout d (console_warn (w\<lparr>now := t, trace := trace w @ [Fetch url]\<rparr>))) = Suc (fetches w)"
  by (simp add: fetches_def setTimeout_def console_warn_def)

lemma trace_after_attempt_wait:
  "trace (setTimeout d (console_warn (w\<lparr>now := t, trace := trace w @ [Fetch url]\<rparr>))) =
     trace w @ [Fetch url, ConsoleWarn, SetTimeout d]"
  by (simp add: setTimeout_def console_warn_def)

lemma fetchWithRetry_exhausts:
  assumes fails: "\<And>n. failure (respond net url n)"
  shows "0 \<le> retries \<Longrightarrow>
     fst (fetchWithRetry net this url retries w) =
       Inl (thrown (respond net url (fetches w + nat retries))) \<and>
     trace (snd (fetchWithRetry net this url retries w)) =
       trace w @ retry_trace url (retryDelay this) (nat retries)"
proof (induction "nat retries" arbitrary: retries w)
  case 0
  then have "retries = 0" by simp
  then show ?case
    by (simp add: fetchWithRetry.simps [of net this url 0 w] attempt_failure [OF fails])
next
  case (Suc n)
  then have pos: "0 < retries" and n: "n = nat (retries - 1)" and nn: "nat retries = Suc n" by simp_all
  let ?w1 = "w\<lparr>now := now w + latency net url (fetches w), trace := trace w @ [Fetch url]\<rparr>"
  let ?w2 = "setTimeout (retryDelay this) (console_warn ?w1)"
  have step: "fetchWithRetry net this url retries w = fetchWithRetry net this url (retries - 1) ?w2"
    using pos by (simp add: fetchWithRetry.simps [of net this url retries w] attempt_failure [OF fails])
  have ih: "fst (fetchWithRetry net this url (retries - 1) ?w2) =
       Inl (thrown (respond net url (fetches ?w2 + nat (retries - 1)))) \<and>
     trace (snd (fetchWithRetry net this url (retries - 1) ?w2)) =
       trace ?w2 @ retry_trace url (retryDelay this) (nat (retries - 1))"
    using Suc.hyps(1) [OF n] pos by simp
  have f2: "fetches ?w2 = Suc (fetches w)" by (rule fetches_after_attempt_wait)
  have t2: "trace ?w2 = trace w @ [Fetch url, ConsoleWarn, SetTimeout (retryDelay this)]"
    by (rule trace_after_attempt_wait)
  show ?case
    using ih unfolding step f2 t2 n [symmetric] nn by simp
qed

lemma slot_valid_data: "slot_valid cached duration t \<Longrightarrow> \<exists>d. data cached = Some d"
  by (auto simp: slot_valid_def split: option.splits if_splits)

lemma count_retry_trace: "length (filter is_fetch (retry_trace url delay n)) = Suc n"
  by (induction n) simp_all

lemma loadContent_fetch_failed:
  assumes "fst (fetchWithRetry net this content_url (maxRetries this) w) = Inl cause"
  shows "fst (loadContent net this w) =
           stale_or_failure (data (content (cache this))) cannot_load_content cause"
    and "fst (snd (loadContent net this w)) = this"
proof -
  obtain fetched w1 where fw: "fetchWithRetry net this content_url (maxRetries this) w = (fetched, w1)"
    by (cases "fetchWithRetry net this content_url (maxRetries this) w")
  with assms have f: "fetched = Inl cause" by simp
  show "fst (loadContent net this w) =
           stale_or_failure (data (content (cache this))) cannot_load_content cause"
    using slot_valid_data [of "content (cache this)" "cacheDuration this" "now w"]
    by (auto simp: loadContent_def fw f stale_or_failure_def isCacheValid_def getCache_def
             split: option.splits)
  show "fst (snd (loadContent net this w)) = this"
    by (auto simp: loadContent_def fw f split: option.splits)
qed

lemma loadContent_exhausted:
  assumes fails: "\<And>n. failure (respond net content_url n)"
    and retries: "0 \<le> maxRetries this"
    and stale: "\<not> isCacheValid this Content w"
  shows "exhausted_retries net this w content_url cannot_load_content
           (data (content (cache this))) (loadContent net this w)"
proof -
  obtain fetched w1 where fw: "fetchWithRetry net this content_url (maxRetries this) w = (fetched, w1)"
    by (cases "fetchWithRetry net this content_url (maxRetries this) w")
  from fetchWithRetry_exhausts [OF fails retries, of this w] fw
  have f: "fetched = Inl (thrown (respond net content_url (fetches w + nat (maxRetries this))))"
    and t: "trace w1 = trace w @ retry_trace content_url (retryDelay this) (nat (maxRetries this))"
    by simp_all
  from t have c: "fetches w1 = fetches w + (nat (maxRetries this) + 1)"
    by (simp add: fetches_def count_retry_trace)
  show ?thesis
    using stale
    by (auto simp: exhausted_retries_def loadContent_def fw f t c console_error_def
          console_warn_def fetches_def count_retry_trace split: option.splits)
qed

lemma loadRecommendations_fetch_failed:
  assumes "fst (fetchWithRetry net this recommendations_url (maxRetries this) w) = Inl cause"
  shows "fst (loadRecommendations net this w) =
           stale_or_failure (data (recommendations (cache this))) cannot_load_recommendations cause"
    and "fst (snd (loadRecommendations net this w)) = this"
proof -
  obtain fetched w1 where fw: "fetchWithRetry net this recommendations_url (maxRetries this) w = (fetched, w1)"
    by (cases "fetchWithRetry net this recommendations_url (maxRetries this) w")
  with assms have f: "fetched = Inl cause" by simp
  show "fst (loadRecommendations net this w) =
           stale_or_failure (data (recommendations (cache this))) cannot_load_recommendations cause"
    using slot_valid_data [of "recommendations (cache this)" "cacheDuration this" "now w"]
    by (auto simp: loadRecommendations_def fw f stale_or_failure_def isCacheValid_def getCache_def
             split: option.splits)
  show "fst (snd (loadRecommendations net this w)) = this"
    by (auto simp: loadRecommendations_def fw f split: option.splits)
qed

lemma loadRecommendations_exhausted:
  assumes fails: "\<And>n. failure (respond net recommendations_url n)"
    and retries: "0 \<le> maxRetries this"
    and stale: "\<not> isCacheValid this Recommendations w"
  shows "exhausted_retries net this w recommendations_url cannot_load_recommendations
           (data (recommendations (cache this))) (loadRecommendations net this w)"
proof -
  obtain fetched w1 where fw: "fetchWithRetry net this recommendations_url (maxRetries this) w = (fetched, w1)"
    by (cases "fetchWithRetry net this recommendations_url (maxRetries this) w")
  from fetchWithRetry_exhausts [OF fails retries, of this w] fw
  have f: "fetched = Inl (thrown (respond net recommendations_url (fetches w + nat (maxRetries this))))"
    and t: "trace w1 = trace w @ retry_trace recommendations_url (retryDelay this) (nat (maxRetries this))"
    by simp_all
  from t have c: "fetches w1 = fetches w + (nat (maxRetries this) + 1)"
    by (simp add: fetches_def count_retry_trace)
  show ?thesis
    using stale
    by (auto simp: exhausted_retries_def loadRecommendations_def fw f t c console_error_def
          console_warn_def fetches_def count_retry_trace split: option.splits)
qed

lemma loadConfig_fetch_failed:
  assumes "fst (fetchWithRetry net this config_url (maxRetries this) w) = Inl cause"
  shows "fst (loadConfig net this w) =
           stale_or_failure (data (config (cache this))) cannot_load_config cause"
    and "fst (snd (loadConfig net this w)) = this"
proof -
  obtain fetched w1 where fw: "fetchWithRetry net this config_url (maxRetries this) w = (fetched, w1)"
    by (cases "fetchWithRetry net this config_url (maxRetries this) w")
  with assms have f: "fetched = Inl cause" by simp
  show "fst (loadConfig net this w) =
           stale_or_failure (data (config (cache this))) cannot_load_config cause"
    using slot_valid_data [of "config (cache this)" "cacheDuration this" "now w"]
    by (auto simp: loadConfig_def fw f stale_or_failure_def isCacheValid_def getCache_def
             split: option.splits)
  show "fst (snd (loadConfig net this w)) = this"
    by (auto simp: loadConfig_def fw f split: option.splits)
qed

lemma loadConfig_exhausted:
  assumes fails: "\<And>n. failure (respond net config_url n)"
    and retries: "0 \<le> maxRetries this"
    and stale: "\<not> isCacheValid this Config w"
  shows "exhausted_retries net this w config_url cannot_load_config
           (data (config (cache this))) (loadConfig net this w)"
proof -
  obtain fetched w1 where fw: "fetchWithRetry net this config_url (maxRetries this) w = (fetched, w1)"
    by (cases "fetchWithRetry net this config_url (maxRetries this) w")
  from fetchWithRetry_exhausts [OF fails retries, of this w] fw
  have f: "fetched = Inl (thrown (respond net config_url (fetches w + nat (maxRetries this))))"
    and t: "trace w1 = trace w @ retry_trace config_url (retryDelay this) (nat (maxRetries this))"
    by simp_all
  from t have c: "fetches w1 = fetches w + (nat (maxRetries this) + 1)"
    by (simp add: fetches_def count_retry_trace)
  show ?thesis
    using stale
    by (auto simp: exhausted_retries_def loadConfig_def fw f t c console_error_def
          console_warn_def fetches_def count_retry_trace split: option.splits)
qed

section \<open>Claims about the loader\<close>

text \<open>
  C1. For each of \<open>loadContent\<close>, \<open>loadConfig\<close> and \<open>loadRecommendations\<close>: when
  \<open>fetchWithRetry\<close> for the load's URL ends, its retries used up, in an error \<open>cause\<close>,
  the load returns the data of its cache slot if the slot holds any, however old, and
  raises an error otherwise; the message of that error is the load's own text followed
  by the message of \<open>cause\<close>.
\<close>

theorem stale_fallback:
  "(fst (fetchWithRetry net this content_url (maxRetries this) w) = Inl cause \<longrightarrow>
      fst (loadContent net this w) =
        stale_or_failure (data (content (cache this))) cannot_load_content cause) \<and>
   (fst (fetchWithRetry net this config_url (maxRetries this) w) = Inl cause \<longrightarrow>
      fst (loadConfig net this w) =
        stale_or_failure (data (config (cache this))) cannot_load_config cause) \<and>
   (fst (fetchWithRetry net this recommendations_url (maxRetries this) w) = Inl cause \<longrightarrow>
      fst (loadRecommendations net this w) =
        stale_or_failure (data (recommendations (cache this))) cannot_load_recommendations cause)"
  by (simp add: loadContent_fetch_failed loadConfig_fetch_failed loadRecommendations_fetch_failed)

theorem stale_fallback_witness:
  "fst (fetchWithRetry offline stale_loader content_url (maxRetries stale_loader) world0) =
     Inl (Error ''Failed to fetch'') \<and>
   fst (fetchWithRetry offline stale_loader config_url (maxRetries stale_loader) world0) =
     Inl (Error ''Failed to fetch'') \<and>
   fst (fetchWithRetry offline stale_loader recommendations_url (maxRetries stale_loader) world0) =
     Inl (Error ''Failed to fetch'') \<and>
   \<not> isCacheValid stale_loader Content world0 \<and>
   fst (loadContent offline stale_loader world0) = Inr (Some [little_prince]) \<and>
   fst (loadConfig offline stale_loader world0) =
     Inl (Error (cannot_load_config @ ''Failed to fetch'')) \<and>
   fst (loadRecommendations offline stale_loader world0) =
     Inl (Error (cannot_load_recommendations @ ''Failed to fetch''))"
proof -
  have h1: "fst (fetchWithRetry offline stale_loader content_url (maxRetries stale_loader) world0) =
     Inl (Error ''Failed to fetch'')" by code_simp
  have h2: "fst (fetchWithRetry offline stale_loader config_url (maxRetries stale_loader) world0) =
     Inl (Error ''Failed to fetch'')" by code_simp
  have h3: "fst (fetchWithRetry offline stale_loader recommendations_url (maxRetries stale_loader) world0) =
     Inl (Error ''Failed to fetch'')" by code_simp
  have h4: "\<not> isCacheValid stale_loader Content world0" by code_simp
  have d: "data (content (cache stale_loader)) = Some [little_prince]"
    "data (config (cache stale_loader)) = None"
    "data (recommendations (cache stale_loader)) = None"
    by (simp_all add: stale_loader_def new_DataLoader_def empty_slot_def)
  from stale_fallback [of offline stale_loader world0 "Error ''Failed to fetch''"] h1 h2 h3 h4 d
  show ?thesis by (simp add: stale_or_failure_def)
qed

text \<open>
  C2. Let the transport fail on every attempt and let \<open>maxRetries\<close> be at least 0. Then
  \<open>fetchWithRetry\<close> makes exactly \<open>maxRetries + 1\<close> requests, one after the other, with a
  warning and a wait of \<open>retryDelay\<close> between two of them, and raises the error of the
  last one. A load that gets as far as the transport (its slot is not fresh) makes these
  requests and no other, and when its slot is empty it raises the error that wraps the
  failure of the last attempt. With the defaults that is 4 requests.
\<close>

theorem retry_bound:
  assumes "\<forall>url n. failure (respond net url n)" and "0 \<le> maxRetries this"
  shows "fst (fetchWithRetry net this url (maxRetries this) w) =
           Inl (thrown (respond net url (fetches w + nat (maxRetries this)))) \<and>
         trace (snd (fetchWithRetry net this url (maxRetries this) w)) =
           trace w @ retry_trace url (retryDelay this) (nat (maxRetries this)) \<and>
         length (filter is_fetch (retry_trace url (retryDelay this) (nat (maxRetries this)))) =
           nat (maxRetries this) + 1 \<and>
         (\<not> isCacheValid this Content w \<longrightarrow>
            exhausted_retries net this w content_url cannot_load_content
              (data (content (cache this))) (loadContent net this w)) \<and>
         (\<not> isCacheValid this Config w \<longrightarrow>
            exhausted_retries net this w config_url cannot_load_config
              (data (config (cache this))) (loadConfig net this w)) \<and>
         (\<not> isCacheValid this Recommendations w \<longrightarrow>
            exhausted_retries net this w recommendations_url cannot_load_recommendations
              (data (recommendations (cache this))) (loadRecommendations net this w))"
  using assms fetchWithRetry_exhausts [of net url "maxRetries this" this w]
  by (simp add: loadContent_exhausted loadConfig_exhausted loadRecommendations_exhausted
        count_retry_trace)

theorem retry_bound_witness:
  "(\<forall>url n. failure (respond unavailable url n)) \<and> 0 \<le> maxRetries new_DataLoader \<and>
   maxRetries new_DataLoader = 3 \<and>
   \<not> isCacheValid new_DataLoader Content world0 \<and>
   \<not> isCacheValid new_DataLoader Config world0 \<and>
   \<not> isCacheValid new_DataLoader Recommendations world0 \<and>
   trace (snd (snd (loadContent unavailable new_DataLoader world0))) =
     [Fetch content_url, ConsoleWarn, SetTimeout 1000,
      Fetch content_url, ConsoleWarn, SetTimeout 1000,
      Fetch content_url, ConsoleWarn, SetTimeout 1000,
      Fetch content_url, ConsoleError] \<and>
   fetches (snd (snd (loadContent unavailable new_DataLoader world0))) = 4 \<and>
   fst (loadContent unavailable new_DataLoader world0) =
     Inl (Error (cannot_load_content @ ''HTTP error! status: 503'')) \<and>
   fetches (snd (snd (loadConfig unavailable new_DataLoader world0))) = 4 \<and>
   fst (loadConfig unavailable new_DataLoader world0) =
     Inl (Error (cannot_load_config @ ''HTTP error! status: 503'')) \<and>
   fetches (snd (snd (loadRecommendations unavailable new_DataLoader world0))) = 4 \<and>
   fst (loadRecommendations unavailable new_DataLoader world0) =
     Inl (Error (cannot_load_recommendations @ ''HTTP error! status: 503''))"
proof -
  have h1: "\<forall>url n. failure (respond unavailable url n)"
    by (simp add: unavailable_def failure_def)
  have h2: "0 \<le> maxRetries new_DataLoader" "maxRetries new_DataLoader = 3"
    "retryDelay new_DataLoader = 1000"
    "data (content (cache new_DataLoader)) = None"
    "data (config (cache new_DataLoader)) = None"
    "data (recommendations (cache new_DataLoader)) = None"
    by (simp_all add: new_DataLoader_def empty_slot_def)
  have h3: "\<not> isCacheValid new_DataLoader Content world0"
    "\<not> isCacheValid new_DataLoader Config world0"
    "\<not> isCacheValid new_DataLoader Recommendations world0"
    by (simp_all add: isCacheValid_def slot_valid_def new_DataLoader_def empty_slot_def)
  have h4: "thrown (respond unavailable url n) = Error ''HTTP error! status: 503''" for url n
    by code_simp
  have h5: "trace world0 = []" "fetches world0 = 0"
    by (simp_all add: world0_def fetches_def)
  have n3: "nat 3 = Suc (Suc (Suc 0))" by simp
  have rt: "retry_trace url 1000 3 =
      [Fetch url, ConsoleWarn, SetTimeout 1000, Fetch url, ConsoleWarn, SetTimeout 1000,
       Fetch url, ConsoleWarn, SetTimeout 1000, Fetch url]" for url
    by (simp add: numeral_3_eq_3)
  from retry_bound [OF h1 h2(1), where w = world0 and url = content_url] h1 h2 h3
  show ?thesis
    by (simp add: exhausted_retries_def h4 h5 n3 rt)
qed

subsection \<open>Freshness\<close>

lemma slot_valid_iff:
  "slot_valid cached ttl t \<longleftrightarrow>
     (\<exists>d ts. data cached = Some d \<and> timestamp cached = Some ts \<and> ts \<noteq> 0 \<and> t - ts < ttl)"
  by (auto simp: slot_valid_def split: option.splits)

lemma slot_valid_setCache:
  "slot_valid (setCache d w0) ttl (now w0 + e) \<longleftrightarrow> now w0 \<noteq> 0 \<and> e < ttl"
  by (auto simp: slot_valid_def setCache_def)

lemma loadContent_fresh:
  "isCacheValid this Content w \<Longrightarrow>
     loadContent net this w = (Inr (data (content (cache this))), this, w) \<and>
     data (content (cache this)) \<noteq> None"
  using slot_valid_data [of "content (cache this)" "cacheDuration this" "now w"]
  by (auto simp: loadContent_def getCache_def isCacheValid_def)

lemma loadConfig_fresh:
  "isCacheValid this Config w \<Longrightarrow>
     loadConfig net this w = (Inr (data (config (cache this))), this, w) \<and>
     data (config (cache this)) \<noteq> None"
  using slot_valid_data [of "config (cache this)" "cacheDuration this" "now w"]
  by (auto simp: loadConfig_def getCache_def isCacheValid_def)

lemma loadRecommendations_fresh:
  "isCacheValid this Recommendations w \<Longrightarrow>
     loadRecommendations net this w = (Inr (data (recommendations (cache this))), this, w) \<and>
     data (recommendations (cache this)) \<noteq> None"
  using slot_valid_data [of "recommendations (cache this)" "cacheDuration this" "now w"]
  by (auto simp: loadRecommendations_def getCache_def isCacheValid_def)

text \<open>
  C7. A slot is unset (\<open>data\<close> and \<open>timestamp\<close> both \<open>null\<close>) or was set by \<open>setCache\<close>,
  which stamps it with \<open>Date.now()\<close>, the number of milliseconds since the beginning of
  1970: a stamp is not 0. For a slot stamped \<open>ts\<close> and checked \<open>e\<close> milliseconds later
  under the TTL \<open>T\<close>, the freshness check is true exactly when the slot holds data and
  \<open>e < T\<close>; an unset slot is not fresh. A load whose check is true returns the cached data
  at once: loader and world are as before, so no request was made. (The guard
  \<open>!cached.timestamp\<close> of the check is there for the unset slot; it would also turn down
  a stamp of 0, see \<open>stamp_zero\<close> below.)
\<close>

theorem cache_freshness:
  assumes "ts \<noteq> 0"
  shows "(timestamp s = Some ts \<longrightarrow> (slot_valid s T (ts + e) \<longleftrightarrow> data s \<noteq> None \<and> e < T)) \<and>
   (now w0 = ts \<longrightarrow> (slot_valid (setCache x w0) T (now w0 + e) \<longleftrightarrow> e < T)) \<and>
   \<not> slot_valid empty_slot T t \<and>
   (timestamp (content (cache this)) = Some ts \<longrightarrow>
      (isCacheValid this Content w \<longleftrightarrow>
         data (content (cache this)) \<noteq> None \<and> now w - ts < cacheDuration this)) \<and>
   (timestamp (config (cache this)) = Some ts \<longrightarrow>
      (isCacheValid this Config w \<longleftrightarrow>
         data (config (cache this)) \<noteq> None \<and> now w - ts < cacheDuration this)) \<and>
   (timestamp (recommendations (cache this)) = Some ts \<longrightarrow>
      (isCacheValid this Recommendations w \<longleftrightarrow>
         data (recommendations (cache this)) \<noteq> None \<and> now w - ts < cacheDuration this)) \<and>
   (isCacheValid this Content w \<longrightarrow>
      loadContent net this w = (Inr (data (content (cache this))), this, w) \<and>
      data (content (cache this)) \<noteq> None) \<and>
   (isCacheValid this Config w \<longrightarrow>
      loadConfig net this w = (Inr (data (config (cache this))), this, w) \<and>
      data (config (cache this)) \<noteq> None) \<and>
   (isCacheValid this Recommendations w \<longrightarrow>
      loadRecommendations net this w = (Inr (data (recommendations (cache this))), this, w) \<and>
      data (recommendations (cache this)) \<noteq> None)"
proof -
  have c0: "timestamp s = Some ts \<longrightarrow> (slot_valid s T (ts + e) \<longleftrightarrow> data s \<noteq> None \<and> e < T)"
    using assms by (auto simp: slot_valid_iff)
  have c4: "now w0 = ts \<longrightarrow> (slot_valid (setCache x w0) T (now w0 + e) \<longleftrightarrow> e < T)"
    using assms by (auto simp: slot_valid_setCache)
  have c8: "\<not> slot_valid empty_slot T t"
    by (simp add: slot_valid_def empty_slot_def)
  have c1: "timestamp (content (cache this)) = Some ts \<longrightarrow>
      (isCacheValid this Content w \<longleftrightarrow>
         data (content (cache this)) \<noteq> None \<and> now w - ts < cacheDuration this)"
    using assms by (auto simp: isCacheValid_def slot_valid_iff)
  have c2: "timestamp (config (cache this)) = Some ts \<longrightarrow>
      (isCacheValid this Config w \<longleftrightarrow>
         data (config (cache this)) \<noteq> None \<and> now w - ts < cacheDuration this)"
    using assms by (auto simp: isCacheValid_def slot_valid_iff)
  have c3: "timestamp (recommendations (cache this)) = Some ts \<longrightarrow>
      (isCacheValid this Recommendations w \<longleftrightarrow>
         data (recommendations (cache this)) \<noteq> None \<and> now w - ts < cacheDuration this)"
    using assms by (auto simp: isCacheValid_def slot_valid_iff)
  note c5 = loadContent_fresh [of this w net]
  note c6 = loadConfig_fresh [of this w net]
  note c7 = loadRecommendations_fresh [of this w net]
  show ?thesis
    apply (intro conjI)
            apply (rule c0)
           apply (rule c4)
          apply (rule c8)
         apply (rule c1)
        apply (rule c2)
       apply (rule c3)
      apply (rule impI, erule c5)
     apply (rule impI, erule c6)
    apply (rule impI, erule c7)
    done
qed

theorem cache_freshness_witness:
  "(1699999900000::int) \<noteq> 0 \<and>
   timestamp (content (cache fresh_loader)) = Some 1699999900000 \<and>
   data (content (cache fresh_loader)) \<noteq> None \<and>
   now world0 - 1699999900000 < cacheDuration fresh_loader \<and>
   isCacheValid fresh_loader Content world0 \<and>
   \<not> isCacheValid (fresh_loader\<lparr>cacheDuration := 100000\<rparr>) Content world0 \<and>
   \<not> isCacheValid fresh_loader Config world0 \<and>
   loadContent offline fresh_loader world0 = (Inr (Some [little_prince]), fresh_loader, world0) \<and>
   slot_valid (setCache [little_prince] (world0\<lparr>now := 1699999900000\<rparr>)) 3600000 (1699999900000 + 3599999) \<and>
   \<not> slot_valid (setCache [little_prince] (world0\<lparr>now := 1699999900000\<rparr>)) 3600000 (1699999900000 + 3600000)"
proof -
  have z: "(1699999900000::int) \<noteq> 0" by simp
  have s: "timestamp (content (cache fresh_loader)) = Some 1699999900000"
    "timestamp (content (cache (fresh_loader\<lparr>cacheDuration := 100000\<rparr>))) = Some 1699999900000"
    by (simp_all add: fresh_loader_def)
  have d: "data (content (cache fresh_loader)) = Some [little_prince]"
    "data (content (cache (fresh_loader\<lparr>cacheDuration := 100000\<rparr>))) = Some [little_prince]"
    by (simp_all add: fresh_loader_def)
  have d': "data (content (cache fresh_loader)) \<noteq> None"
    "data (content (cache (fresh_loader\<lparr>cacheDuration := 100000\<rparr>))) \<noteq> None"
    using d by simp_all
  have e: "now world0 - 1699999900000 < cacheDuration fresh_loader"
    "\<not> now world0 - 1699999900000 < cacheDuration (fresh_loader\<lparr>cacheDuration := 100000\<rparr>)"
    by (simp_all add: fresh_loader_def new_DataLoader_def world0_def)
  have n: "\<not> isCacheValid fresh_loader Config world0" by code_simp
  have w: "now (world0\<lparr>now := 1699999900000\<rparr>) = 1699999900000" by simp
  have lt: "(3599999::int) < 3600000" "\<not> (3600000::int) < 3600000" by simp_all
  note t1 = cache_freshness [OF z, where this = fresh_loader and w = world0 and net = offline
      and ?w0.0 = "world0\<lparr>now := 1699999900000\<rparr>" and x = "[little_prince]" and T = 3600000
      and e = 3599999 and s = "content (cache fresh_loader)" and t = 0]
  note t2 = cache_freshness [OF z, where this = "fresh_loader\<lparr>cacheDuration := 100000\<rparr>" and w = world0
      and net = offline
      and ?w0.0 = "world0\<lparr>now := 1699999900000\<rparr>" and x = "[little_prince]" and T = 3600000
      and e = 3600000 and s = "content (cache fresh_loader)" and t = 0]
  from t1 have t1a: "timestamp (content (cache fresh_loader)) = Some 1699999900000 \<longrightarrow>
      (isCacheValid fresh_loader Content world0 \<longleftrightarrow>
         data (content (cache fresh_loader)) \<noteq> None \<and> now world0 - 1699999900000 < cacheDuration fresh_loader)"
    by (elim conjE)
  from t1a s(1) d'(1) e(1) have v: "isCacheValid fresh_loader Content world0" by simp
  from t2 have t2a: "timestamp (content (cache (fresh_loader\<lparr>cacheDuration := 100000\<rparr>))) = Some 1699999900000 \<longrightarrow>
      (isCacheValid (fresh_loader\<lparr>cacheDuration := 100000\<rparr>) Content world0 \<longleftrightarrow>
         data (content (cache (fresh_loader\<lparr>cacheDuration := 100000\<rparr>))) \<noteq> None \<and>
         now world0 - 1699999900000 < cacheDuration (fresh_loader\<lparr>cacheDuration := 100000\<rparr>))"
    by (elim conjE)
  from t2a s(2) e(2) have v2: "\<not> isCacheValid (fresh_loader\<lparr>cacheDuration := 100000\<rparr>) Content world0"
    by simp
  from t1 have t1b: "isCacheValid fresh_loader Content world0 \<longrightarrow>
      loadContent offline fresh_loader world0 = (Inr (data (content (cache fresh_loader))), fresh_loader, world0) \<and>
      data (content (cache fresh_loader)) \<noteq> None"
    by (elim conjE)
  from t1b v have "loadContent offline fresh_loader world0 =
      (Inr (data (content (cache fresh_loader))), fresh_loader, world0)" by (elim impE conjE)
  then have l: "loadContent offline fresh_loader world0 =
      (Inr (Some [little_prince]), fresh_loader, world0)" by (simp only: d(1))
  from t1 have t1c: "now (world0\<lparr>now := 1699999900000\<rparr>) = 1699999900000 \<longrightarrow>
      (slot_valid (setCache [little_prince] (world0\<lparr>now := 1699999900000\<rparr>)) 3600000
         (now (world0\<lparr>now := 1699999900000\<rparr>) + 3599999) \<longleftrightarrow> (3599999::int) < 3600000)"
    by (elim conjE)
  from t1c have a: "slot_valid (setCache [little_prince] (world0\<lparr>now := 1699999900000\<rparr>)) 3600000
      (1699999900000 + 3599999)" by simp
  from t2 have t2c: "now (world0\<lparr>now := 1699999900000\<rparr>) = 1699999900000 \<longrightarrow>
      (slot_valid (setCache [little_prince] (world0\<lparr>now := 1699999900000\<rparr>)) 3600000
         (now (world0\<lparr>now := 1699999900000\<rparr>) + 3600000) \<longleftrightarrow> (3600000::int) < 3600000)"
    by (elim conjE)
  from t2c have b: "\<not> slot_valid (setCache [little_prince] (world0\<lparr>now := 1699999900000\<rparr>)) 3600000
      (1699999900000 + 3600000)" by simp
  show ?thesis
    apply (intro conjI)
    apply (rule z)
    apply (rule s(1))
    apply (rule d'(1))
    apply (rule e(1))
    apply (rule v)
    apply (rule v2)
    apply (rule n)
    apply (rule l)
    apply (rule a)
    apply (rule b)
    done
qed

text \<open>
  What the guard does with a stamp of 0: content fetched and cached with the clock at 0
  is present, 5 ms later it is well within the TTL of an hour, and the check is false.
\<close>

lemma stamp_zero:
  "fst (loadContent (serving (site_config None)) new_DataLoader epoch) = Inr (Some [little_prince]) \<and>
   timestamp (content (cache (fst (snd (loadContent (serving (site_config None)) new_DataLoader epoch))))) =
     Some 0 \<and>
   \<not> isCacheValid (fst (snd (loadContent (serving (site_config None)) new_DataLoader epoch))) Content
       (epoch\<lparr>now := 5\<rparr>)"
  by code_simp

subsection \<open>The TTL override\<close>

lemma loadContent_cacheDuration:
  "cacheDuration (fst (snd (loadContent net this w))) = cacheDuration this"
proof -
  obtain fetched w1 where fw: "fetchWithRetry net this content_url (maxRetries this) w = (fetched, w1)"
    by (cases "fetchWithRetry net this content_url (maxRetries this) w")
  show ?thesis
    by (auto simp: loadContent_def fw split: option.splits sum.splits)
qed

lemma loadRecommendations_cacheDuration:
  "cacheDuration (fst (snd (loadRecommendations net this w))) = cacheDuration this"
proof -
  obtain fetched w1 where fw: "fetchWithRetry net this recommendations_url (maxRetries this) w = (fetched, w1)"
    by (cases "fetchWithRetry net this recommendations_url (maxRetries this) w")
  show ?thesis
    by (auto simp: loadRecommendations_def fw split: option.splits sum.splits)
qed

lemma loadConfig_fetched:
  assumes "\<not> isCacheValid this Config w"
    and "fetchWithRetry net this config_url (maxRetries this) w = (Inr response, w1)"
    and "parse_config response = Inr d"
  shows "loadConfig net this w =
           (Inr (Some d),
            (apply_cacheDuration d this)\<lparr>cache := (cache this)\<lparr>config := setCache d w1\<rparr>\<rparr>, w1)"
  using assms
  by (auto simp: loadConfig_def Let_def apply_cacheDuration_def split: option.splits performance.splits)

text \<open>
  What a load of configuration that is fetched and validated (not served from the cache)
  does to the TTL. When \<open>performance.cacheDuration\<close> is a number other than 0, the load
  sets the TTL to that number, stores the configuration stamped with the time of the fetch,
  and leaves the other two slots as they are; every freshness check on the loader it
  returns uses the new TTL against the stamps the slots already had. Loads of content and
  of recommendations, and a load of configuration served from the cache, keep the TTL.
  When \<open>performance\<close> or its \<open>cacheDuration\<close> is missing, or the duration is 0, the TTL
  stays as it was.
\<close>

lemma loadConfig_override:
  assumes "\<not> isCacheValid this Config w"
    and "fetchWithRetry net this config_url (maxRetries this) w = (Inr response, w1)"
    and "parse_config response = Inr d"
    and "json_performance d = Some (Performance (Some ttl))"
    and "ttl \<noteq> 0"
  shows "loadConfig net this w =
           (Inr (Some d), this\<lparr>cacheDuration := ttl, cache := (cache this)\<lparr>config := setCache d w1\<rparr>\<rparr>, w1) \<and>
         (\<forall>w'. (isCacheValid (fst (snd (loadConfig net this w))) Content w' \<longleftrightarrow>
                  slot_valid (content (cache this)) ttl (now w')) \<and>
               (isCacheValid (fst (snd (loadConfig net this w))) Recommendations w' \<longleftrightarrow>
                  slot_valid (recommendations (cache this)) ttl (now w')) \<and>
               (isCacheValid (fst (snd (loadConfig net this w))) Config w' \<longleftrightarrow>
                  slot_valid (setCache d w1) ttl (now w'))) \<and>
         (\<forall>net' l w'. cacheDuration (fst (snd (loadContent net' l w'))) = cacheDuration l \<and>
               cacheDuration (fst (snd (loadRecommendations net' l w'))) = cacheDuration l \<and>
               (isCacheValid l Config w' \<longrightarrow> fst (snd (loadConfig net' l w')) = l))"
proof -
  have eq: "loadConfig net this w =
      (Inr (Some d), this\<lparr>cacheDuration := ttl, cache := (cache this)\<lparr>config := setCache d w1\<rparr>\<rparr>, w1)"
    using loadConfig_fetched [OF assms(1-3)] assms(4,5) by (simp add: apply_cacheDuration_def)
  have checks: "\<forall>w'. (isCacheValid (fst (snd (loadConfig net this w))) Content w' \<longleftrightarrow>
                  slot_valid (content (cache this)) ttl (now w')) \<and>
               (isCacheValid (fst (snd (loadConfig net this w))) Recommendations w' \<longleftrightarrow>
                  slot_valid (recommendations (cache this)) ttl (now w')) \<and>
               (isCacheValid (fst (snd (loadConfig net this w))) Config w' \<longleftrightarrow>
                  slot_valid (setCache d w1) ttl (now w'))"
    by (simp add: eq isCacheValid_def)
  have later: "\<forall>net' l w'. cacheDuration (fst (snd (loadContent net' l w'))) = cacheDuration l \<and>
               cacheDuration (fst (snd (loadRecommendations net' l w'))) = cacheDuration l \<and>
               (isCacheValid l Config w' \<longrightarrow> fst (snd (loadConfig net' l w')) = l)"
    by (simp add: loadContent_cacheDuration loadRecommendations_cacheDuration loadConfig_fresh)
  from eq checks later show ?thesis by blast
qed

lemma loadConfig_override_minute:
  "\<not> isCacheValid stamped_loader Config world0 \<and>
   parse_config \<lparr>ok = True, status = 200, json = Inr (JDoc (site_config (Some 60000)))\<rparr> =
     Inr (site_config (Some 60000)) \<and>
   json_performance (site_config (Some 60000)) = Some (Performance (Some 60000)) \<and>
   cacheDuration stamped_loader = 3600000 \<and>
   isCacheValid stamped_loader Content world0 \<and>
   fst (loadConfig (serving (site_config (Some 60000))) stamped_loader world0) =
     Inr (Some (site_config (Some 60000))) \<and>
   cacheDuration (fst (snd (loadConfig (serving (site_config (Some 60000))) stamped_loader world0))) = 60000 \<and>
   timestamp (content (cache (fst (snd (loadConfig (serving (site_config (Some 60000))) stamped_loader world0))))) =
     Some 1699999900000 \<and>
   \<not> isCacheValid (fst (snd (loadConfig (serving (site_config (Some 60000))) stamped_loader world0)))
       Content world0 \<and>
   isCacheValid (fst (snd (loadConfig (serving (site_config (Some 60000))) stamped_loader world0)))
       Recommendations world0"
proof -
  let ?r = "\<lparr>ok = True, status = 200, json = Inr (JDoc (site_config (Some 60000)))\<rparr>"
  let ?w1 = "world0\<lparr>now := now world0 + 0, trace := trace world0 @ [Fetch config_url]\<rparr>"
  have h1: "\<not> isCacheValid stamped_loader Config world0" by code_simp
  have h2: "fetchWithRetry (serving (site_config (Some 60000))) stamped_loader config_url
              (maxRetries stamped_loader) world0 = (Inr ?r, ?w1)"
    by (simp add: fetchWithRetry.simps attempt_def fetch_def serving_def Let_def)
  have h3: "parse_config ?r = Inr (site_config (Some 60000))"
    by (simp add: parse_config_def site_config_def)
  have h4: "json_performance (site_config (Some 60000)) = Some (Performance (Some 60000))"
    by (simp add: site_config_def)
  have h5: "(60000::int) \<noteq> 0" by simp
  have c: "cacheDuration stamped_loader = 3600000"
    "timestamp (content (cache stamped_loader)) = Some 1699999900000"
    by (simp_all add: stamped_loader_def new_DataLoader_def)
  have v: "isCacheValid stamped_loader Content world0" by code_simp
  have s1: "\<not> slot_valid (content (cache stamped_loader)) 60000 (now world0)" by code_simp
  have s2: "slot_valid (recommendations (cache stamped_loader)) 60000 (now world0)" by code_simp
  let ?L = "loadConfig (serving (site_config (Some 60000))) stamped_loader world0"
  note t = loadConfig_override [OF h1 h2 h3 h4 h5]
  from t have e: "?L = (Inr (Some (site_config (Some 60000))),
      stamped_loader\<lparr>cacheDuration := 60000,
        cache := (cache stamped_loader)\<lparr>config := setCache (site_config (Some 60000)) ?w1\<rparr>\<rparr>, ?w1)"
    by blast
  from t s1 have q1: "\<not> isCacheValid (fst (snd ?L)) Content world0" by blast
  from t s2 have q2: "isCacheValid (fst (snd ?L)) Recommendations world0" by blast
  have r: "fst ?L = Inr (Some (site_config (Some 60000)))"
    "cacheDuration (fst (snd ?L)) = 60000"
    "timestamp (content (cache (fst (snd ?L)))) = Some 1699999900000"
    by (simp_all add: e c)
  from h1 h3 h4 c(1) v r q1 q2 show ?thesis by blast
qed

lemma loadConfig_keeps_ttl:
  assumes "\<not> isCacheValid this Config w"
    and "fetchWithRetry net this config_url (maxRetries this) w = (Inr response, w1)"
    and "parse_config response = Inr d"
    and "json_performance d = None \<or> json_performance d = Some (Performance None) \<or>
         json_performance d = Some (Performance (Some 0))"
  shows "loadConfig net this w =
           (Inr (Some d), this\<lparr>cache := (cache this)\<lparr>config := setCache d w1\<rparr>\<rparr>, w1)"
  using loadConfig_fetched [OF assms(1-3)] assms(4) by (auto simp: apply_cacheDuration_def)

text \<open>
  C9. The claim has the override applied when configuration is fetched and validated, and
  the source says as much above the assignment (update the cache duration if the
  configuration specifies one). The assignment is guarded by
  \<open>data.performance && data.performance.cacheDuration\<close>, which a specified duration of 0
  does not pass. So a configuration with \<open>cacheDuration = 0\<close> is fetched, validated and
  returned, and the TTL is still the default of an hour: the slot just filled passes the
  check a second later, which a TTL of 0 does not allow.
\<close>

theorem ttl_override_zero:
  "fst (loadConfig (serving (site_config (Some 0))) new_DataLoader world0) =
     Inr (Some (site_config (Some 0))) \<and>
   json_performance (site_config (Some 0)) = Some (Performance (Some 0)) \<and>
   cacheDuration (fst (snd (loadConfig (serving (site_config (Some 0))) new_DataLoader world0))) = 3600000 \<and>
   isCacheValid (fst (snd (loadConfig (serving (site_config (Some 0))) new_DataLoader world0))) Config
     (world0\<lparr>now := now world0 + 1000\<rparr>) \<and>
   \<not> slot_valid (config (cache (fst (snd (loadConfig (serving (site_config (Some 0))) new_DataLoader world0)))))
       0 (now world0 + 1000)"
  by code_simp

subsection \<open>The recommendation join\<close>

lemma not_null_annotate: "not_null (map (annotate cont) recs) = annotated_matches recs cont"
  by (induction recs) (auto simp: annotate_def annotated_matches_def split: option.splits)

lemma filter_js_sort_key:
  "filter (\<lambda>a. key a = p) (js_sort (\<lambda>a b. key a - key b) xs) = filter (\<lambda>a. key a = (p::int)) xs"
proof (induction xs)
  case Nil
  then show ?case by (simp add: js_sort_def)
next
  case (Cons x xs)
  have "js_sort (\<lambda>a b. key a - key b) (x # xs) =
          insert_sorted (\<lambda>a b. key a - key b) x (js_sort (\<lambda>a b. key a - key b) xs)"
    by (simp add: js_sort_def)
  moreover have "filter (\<lambda>a. key a = p)
                   (insert_sorted (\<lambda>a b. key a - key b) x (js_sort (\<lambda>a b. key a - key b) xs)) =
                 filter (\<lambda>a. key a = p) (x # js_sort (\<lambda>a b. key a - key b) xs)"
    by (rule filter_insert_sorted) simp
  ultimately show ?case using Cons.IH by simp
qed

lemma sorted_js_sort_key: "sorted (map key (js_sort (\<lambda>a b. key a - key b) xs) :: int list)"
proof -
  have "sorted_wrt (\<lambda>a b. key a - key b \<le> 0) (js_sort (\<lambda>a b. key a - key b) xs)"
    by (rule sorted_js_sort) simp_all
  then show ?thesis by (simp add: sorted_map)
qed

lemma getRecommendedContent_loaded:
  assumes "loadRecommendations net this w = (Inr (Some recs), this1, w1)"
    and "loadContent net this1 w1 = (Inr (Some cont), this2, w2)"
  shows "getRecommendedContent net this w = (Inr (recommendedContent recs cont), this2, w2)"
  using assms by (simp add: getRecommendedContent_def)

text \<open>
  C5. When the two loads return the recommendation list \<open>recs\<close> and the content list
  \<open>cont\<close>, \<open>getRecommendedContent\<close> returns a list that holds exactly the annotated
  matches (for every entry whose \<open>contentId\<close> is the \<open>id\<close> of an item, that item with the
  entry's reason and priority; nothing for an entry without such an item), in ascending
  order of priority, the entries of one priority in the order of the recommendation list.
\<close>

theorem recommended_content:
  assumes "loadRecommendations net this w = (Inr (Some recs), this1, w1)"
    and "loadContent net this1 w1 = (Inr (Some cont), this2, w2)"
  shows "\<exists>result. fst (getRecommendedContent net this w) = Inr result \<and>
           mset result = mset (annotated_matches recs cont) \<and>
           sorted (map recommendationPriority result) \<and>
           (\<forall>p. filter (\<lambda>a. recommendationPriority a = p) result =
                filter (\<lambda>a. recommendationPriority a = p) (annotated_matches recs cont))"
proof -
  let ?result = "recommendedContent recs cont"
  have "fst (getRecommendedContent net this w) = Inr ?result"
    using getRecommendedContent_loaded [OF assms] by simp
  moreover have "mset ?result = mset (annotated_matches recs cont)"
    by (simp add: recommendedContent_def mset_js_sort not_null_annotate)
  moreover have "sorted (map recommendationPriority ?result)"
    unfolding recommendedContent_def by (rule sorted_js_sort_key)
  moreover have "\<forall>p. filter (\<lambda>a. recommendationPriority a = p) ?result =
                filter (\<lambda>a. recommendationPriority a = p) (annotated_matches recs cont)"
    by (simp add: recommendedContent_def filter_js_sort_key not_null_annotate)
  ultimately show ?thesis by blast
qed

theorem recommended_content_witness:
  "fst (loadRecommendations (serving catalogue) new_DataLoader world0) = Inr (Some picks) \<and>
   fst (loadContent (serving catalogue)
          (fst (snd (loadRecommendations (serving catalogue) new_DataLoader world0)))
          (snd (snd (loadRecommendations (serving catalogue) new_DataLoader world0)))) =
     Inr (Some [item_a, item_b, item_c]) \<and>
   annotated_matches picks [item_a, item_b, item_c] =
     [\<lparr>rec_item = item_a, recommendationReason = Some ''classic'', recommendationPriority = 2\<rparr>,
      \<lparr>rec_item = item_b, recommendationReason = None, recommendationPriority = 0\<rparr>,
      \<lparr>rec_item = item_c, recommendationReason = Some ''new'', recommendationPriority = 2\<rparr>] \<and>
   fst (getRecommendedContent (serving catalogue) new_DataLoader world0) =
     Inr [\<lparr>rec_item = item_b, recommendationReason = None, recommendationPriority = 0\<rparr>,
          \<lparr>rec_item = item_a, recommendationReason = Some ''classic'', recommendationPriority = 2\<rparr>,
          \<lparr>rec_item = item_c, recommendationReason = Some ''new'', recommendationPriority = 2\<rparr>] \<and>
   (\<exists>result. fst (getRecommendedContent (serving catalogue) new_DataLoader world0) = Inr result \<and>
      mset result = mset (annotated_matches picks [item_a, item_b, item_c]) \<and>
      sorted (map recommendationPriority result) \<and>
      filter (\<lambda>a. recommendationPriority a = 2) result =
        filter (\<lambda>a. recommendationPriority a = 2) (annotated_matches picks [item_a, item_b, item_c]))"
proof -
  let ?L1 = "loadRecommendations (serving catalogue) new_DataLoader world0"
  let ?L2 = "loadContent (serving catalogue) (fst (snd ?L1)) (snd (snd ?L1))"
  have f1: "fst ?L1 = Inr (Some picks)" by code_simp
  have f2: "fst ?L2 = Inr (Some [item_a, item_b, item_c])" by code_simp
  have h1: "?L1 = (Inr (Some picks), fst (snd ?L1), snd (snd ?L1))"
    using f1 by (simp add: prod_eq_iff)
  have h2: "?L2 = (Inr (Some [item_a, item_b, item_c]), fst (snd ?L2), snd (snd ?L2))"
    using f2 by (simp add: prod_eq_iff)
  have a: "annotated_matches picks [item_a, item_b, item_c] =
     [\<lparr>rec_item = item_a, recommendationReason = Some ''classic'', recommendationPriority = 2\<rparr>,
      \<lparr>rec_item = item_b, recommendationReason = None, recommendationPriority = 0\<rparr>,
      \<lparr>rec_item = item_c, recommendationReason = Some ''new'', recommendationPriority = 2\<rparr>]"
    by code_simp
  have g: "fst (getRecommendedContent (serving catalogue) new_DataLoader world0) =
     Inr [\<lparr>rec_item = item_b, recommendationReason = None, recommendationPriority = 0\<rparr>,
          \<lparr>rec_item = item_a, recommendationReason = Some ''classic'', recommendationPriority = 2\<rparr>,
          \<lparr>rec_item = item_c, recommendationReason = Some ''new'', recommendationPriority = 2\<rparr>]"
    by code_simp
  from recommended_content [OF h1 h2] f1 f2 a g show ?thesis by blast
qed

section \<open>Properties of the router\<close>

lemma decode_error: "decodeURIComponent s = Inl e \<Longrightarrow> e = uri_error"
  by (auto simp: decodeURIComponent_def split: option.splits)

lemma bind_params_those:
  "bind_params names i m ps =
     (case those (map (\<lambda>j. decoded (capture m j)) [i ..< i + length names]) of
        None \<Rightarrow> Inl uri_error
      | Some vs \<Rightarrow> Inr (ps(names [\<mapsto>] vs)))"
proof (induction names arbitrary: i ps)
  case Nil
  then show ?case by simp
next
  case (Cons n ns)
  have upt: "[i ..< Suc (i + length ns)] = i # [Suc i ..< Suc (i + length ns)]"
    by (simp add: upt_conv_Cons del: upt_Suc)
  show ?case
  proof (cases "decodeURIComponent (capture m i)")
    case (Inl e)
    then have "decoded (capture m i) = None" by (simp add: decoded_def)
    with Inl decode_error [OF Inl] show ?thesis by (simp add: upt del: upt_Suc)
  next
    case (Inr v)
    then have "decoded (capture m i) = Some v" by (simp add: decoded_def)
    with Inr show ?thesis
      by (simp add: Cons.IH upt del: upt_Suc split: option.splits)
  qed
qed

lemma bind_params_bound:
  "bind_params names 0 m Map.empty =
     (case bound_params names m of None \<Rightarrow> Inl uri_error | Some ps \<Rightarrow> Inr ps)"
  by (simp add: bind_params_those bound_params_def split: option.splits)





lemma dispatch_first_match:
  "dispatch rs this b =
     (case first_match rs (pathname b) of
        None \<Rightarrow> Inr (this, not_found b)
      | Some (rt, m) \<Rightarrow>
          (case bound_params (paramNames rt) m of
             None \<Rightarrow> Inl uri_error
           | Some ps \<Rightarrow> Inr (after_handler this (handler rt ps (ps, b)))))"
  by (induction rs)
     (auto simp: not_found_def after_handler_def bind_params_bound
           split: option.splits sum.splits prod.splits)

lemma handleRoute_first_match:
  "handleRoute this b =
     (case first_match (routes this) (pathname b) of
        None \<Rightarrow> Inr (this, not_found b)
      | Some (rt, m) \<Rightarrow>
          (case bound_params (paramNames rt) m of
             None \<Rightarrow> Inl uri_error
           | Some ps \<Rightarrow> Inr (after_handler this (handler rt ps (ps, b)))))"
  by (simp add: handleRoute_def dispatch_first_match)











subsection \<open>Registration\<close>
















subsection \<open>The routes of the examples\<close>



lemma category_match_books:
  "match_tokens (map Lit ''/category/'' @ [Group]) ''/category/books'' = Some [''books'']"
  by code_simp


lemma decode_books: "decodeURIComponent ''books'' = Inr ''books''"
  by code_simp









section \<open>Claims about the router\<close>



text \<open>
  C8. When the handler of the matched route raises an error, \<open>handleRoute\<close> returns
  normally: the error is logged on the console and not raised again. The handler was
  called on current parameters that were the newly extracted ones already, and the current
  parameters afterwards are what the handler left of them, whatever they were before
  \<open>handleRoute\<close>: the extracted ones, for a handler that does not navigate.
\<close>

theorem handler_failure_contained:
  assumes "first_match (routes this) (pathname b) = Some (rt, m)"
    and "bind_params (paramNames rt) 0 m Map.empty = Inr ps"
    and "handler rt ps (ps, b) = (Some error, current, b1)"
  shows "handleRoute this b =
           Inr (this\<lparr>currentParams := current\<rparr>, b1\<lparr>console := console b1 @ [Logged error]\<rparr>) \<and>
         handleRoute (this\<lparr>currentParams := before\<rparr>) b =
           Inr (this\<lparr>currentParams := current\<rparr>, b1\<lparr>console := console b1 @ [Logged error]\<rparr>)"
  using assms
  by (simp add: handleRoute_first_match bind_params_bound after_handler_def split: option.splits)

theorem handler_failure_contained_witness:
  "first_match (routes (category_router broken_view)) (pathname books_page) =
     Some (category_route broken_view, [Some ''books'']) \<and>
   bind_params (paramNames (category_route broken_view)) 0 [Some ''books''] Map.empty =
     Inr [''type'' \<mapsto> ''books''] \<and>
   handler (category_route broken_view) [''type'' \<mapsto> ''books''] ([''type'' \<mapsto> ''books''], books_page) =
     (Some (Error ''render failed''), [''type'' \<mapsto> ''books''], books_page\<lparr>main_html := None\<rparr>) \<and>
   handleRoute (category_router broken_view) books_page =
     Inr ((category_router broken_view)\<lparr>currentParams := [''type'' \<mapsto> ''books'']\<rparr>,
          books_page\<lparr>console := [Logged (Error ''render failed'')], main_html := None\<rparr>) \<and>
   handleRoute ((category_router broken_view)\<lparr>currentParams := [''id'' \<mapsto> ''42'']\<rparr>) books_page =
     Inr ((category_router broken_view)\<lparr>currentParams := [''type'' \<mapsto> ''books'']\<rparr>,
          books_page\<lparr>console := [Logged (Error ''render failed'')], main_html := None\<rparr>)"
proof -
  have h1: "first_match (routes (category_router broken_view)) (pathname books_page) =
     Some (category_route broken_view, [Some ''books''])"
    using category_match_books
    by (simp add: category_router_def category_route_def books_page_def page_def path_match_def)
  have h2: "bind_params (paramNames (category_route broken_view)) 0 [Some ''books''] Map.empty =
     Inr [''type'' \<mapsto> ''books'']"
    using decode_books by (simp add: category_route_def capture_def)
  have h3: "handler (category_route broken_view) [''type'' \<mapsto> ''books'']
       ([''type'' \<mapsto> ''books''], books_page) =
     (Some (Error ''render failed''), [''type'' \<mapsto> ''books''], books_page\<lparr>main_html := None\<rparr>)"
    by (simp add: category_route_def)
  have c: "(books_page\<lparr>main_html := None\<rparr>)\<lparr>console := console (books_page\<lparr>main_html := None\<rparr>) @
        [Logged (Error ''render failed'')]\<rparr> =
      books_page\<lparr>console := [Logged (Error ''render failed'')], main_html := None\<rparr>"
    by (simp add: books_page_def page_def)
  from handler_failure_contained [OF h1 h2 h3, of "[''id'' \<mapsto> ''42'']"] h1 h2 h3 show ?thesis
    unfolding c by blast
qed

text \<open>
  C4, as amended. \<open>getAllParams\<close> gives, for every key, the value of the query string when
  the query string has the key and the path parameter otherwise: on a key that both have,
  the query string wins, since it is spread last. \<open>getPathParams\<close> is the current
  parameters and \<open>getParams\<close> is the parsed query string of \<open>location.href\<close>; all three
  only read the router and the browser.
\<close>

theorem merged_params:
  "getAllParams this b k =
     (case getParams this b k of Some v \<Rightarrow> Some v | None \<Rightarrow> currentParams this k) \<and>
   (k \<in> dom (currentParams this) \<and> k \<in> dom (getParams this b) \<longrightarrow>
      getAllParams this b k = getParams this b k) \<and>
   getPathParams this = currentParams this \<and>
   getParams this b = parseQueryString b (Some (href b))"
  by (auto simp: getAllParams_def getPathParams_def getParams_def map_add_def split: option.splits)

theorem merged_params_witness:
  "''type'' \<in> dom (currentParams ((category_router show_type)\<lparr>currentParams := [''type'' \<mapsto> ''books'']\<rparr>)) \<and>
   ''type'' \<in> dom (getParams ((category_router show_type)\<lparr>currentParams := [''type'' \<mapsto> ''books'']\<rparr>) books_page) \<and>
   getParams ((category_router show_type)\<lparr>currentParams := [''type'' \<mapsto> ''books'']\<rparr>) books_page ''type'' =
     Some ''movies'' \<and>
   getAllParams ((category_router show_type)\<lparr>currentParams := [''type'' \<mapsto> ''books'']\<rparr>) books_page ''type'' =
     Some ''movies'' \<and>
   getAllParams ((category_router show_type)\<lparr>currentParams := [''type'' \<mapsto> ''books'']\<rparr>) books_page ''page'' =
     Some ''2''"
proof -
  let ?r = "(category_router show_type)\<lparr>currentParams := [''type'' \<mapsto> ''books'']\<rparr>"
  have q: "parseQueryString books_page (Some (href books_page)) ''type'' = Some ''movies''"
    "parseQueryString books_page (Some (href books_page)) ''page'' = Some ''2''"
    by code_simp+
  have d: "''type'' \<in> dom (currentParams ?r)" by simp
  from merged_params [of ?r books_page "''type''"] merged_params [of ?r books_page "''page''"] q d
  show ?thesis by (auto simp: dom_def)
qed

text \<open>
  The claim as stated fails on \<open>/category/books?type=movies\<close>: after the route is handled
  the path parameter \<open>type\<close> is \<open>books\<close>, and \<open>getAllParams\<close> gives \<open>movies\<close>.
\<close>

theorem merged_params_counterexample:
  "fst (snd (case handleRoute (category_router show_type) books_page of
               Inr (r, b) \<Rightarrow> (True, currentParams r ''type'', getAllParams r b ''type'')
             | Inl e \<Rightarrow> (False, None, None))) = Some ''books'' \<and>
   snd (snd (case handleRoute (category_router show_type) books_page of
               Inr (r, b) \<Rightarrow> (True, currentParams r ''type'', getAllParams r b ''type'')
             | Inl e \<Rightarrow> (False, None, None))) = Some ''movies''"
  by code_simp

end
